theory Spec2Isabelle
  imports Main "HOL-Library.Sublist" "HOL-Library.Word"
begin

section \<open>JavaScript values\<close>

text \<open>
  The connector (\<^verbatim>\<open>src/index.js\<close>) passes records, identifiers, filter arguments and
  errors around as plain JavaScript values. They are modelled by one datatype. Numbers
  are the integers from \<open>- 2 ^ 53\<close> to \<open>2 ^ 53 - 1\<close>, each of which the runtime
  represents exactly: a signed word of 54 bits, read by \<open>sint\<close> (there are no other
  numbers in the model: no fractions, nothing beyond the range). Objects are plain
  objects with data properties, association lists from property names to values (the
  first binding of a name is the property); arrays are arrays of values.
\<close>

type_synonym safe_int = "54 word"

datatype jsval =
    Undefined
  | Null
  | JBool bool
  | JNum safe_int
  | JStr string
  | JArr "jsval list"
  | JObj "(string \<times> jsval) list"

text \<open>What \<^verbatim>\<open>if (v)\<close> and \<^verbatim>\<open>!v\<close> test.\<close>

fun truthy :: "jsval \<Rightarrow> bool" where
  "truthy Undefined = False"
| "truthy Null = False"
| "truthy (JBool b) = b"
| "truthy (JNum n) = (n \<noteq> 0)"
| "truthy (JStr s) = (s \<noteq> [])"
| "truthy (JArr xs) = True"
| "truthy (JObj kvs) = True"

text \<open>
  Property read \<^verbatim>\<open>v[k]\<close> on a value that is neither null nor undefined, for a name
  that no prototype defines (as \<^verbatim>\<open>_doc\<close> and \<^verbatim>\<open>_id\<close>): the own property, or
  \<^verbatim>\<open>undefined\<close>.
\<close>

definition get_prop :: "jsval \<Rightarrow> string \<Rightarrow> jsval" where
  "get_prop v k =
     (case v of
        JObj kvs \<Rightarrow> (case map_of kvs k of Some x \<Rightarrow> x | None \<Rightarrow> Undefined)
      | _ \<Rightarrow> Undefined)"

text \<open>\<^verbatim>\<open>delete v[k]\<close>: removes the property from an object, does nothing otherwise.\<close>

definition delete_prop :: "jsval \<Rightarrow> string \<Rightarrow> jsval" where
  "delete_prop v k =
     (case v of
        JObj kvs \<Rightarrow> JObj (filter (\<lambda>kv. fst kv \<noteq> k) kvs)
      | _ \<Rightarrow> v)"

text \<open>An error object as the runtime raises it.\<close>

definition js_error :: "string \<Rightarrow> string \<Rightarrow> jsval" where
  "js_error nm msg = JObj [(''name'', JStr nm), (''message'', JStr msg)]"

subsection \<open>Conversion to a string\<close>

text \<open>
  \<^verbatim>\<open>cmd + ' is not a supported filter command'\<close> converts \<^verbatim>\<open>cmd\<close> to a string first,
  which may raise. A string is itself, \<^verbatim>\<open>undefined\<close>, \<^verbatim>\<open>null\<close> and the booleans are
  spelled out, a number of the range above is written in decimal. A plain object is
  converted by the methods \<^verbatim>\<open>valueOf\<close> and \<^verbatim>\<open>toString\<close> it has: with an own
  property \<^verbatim>\<open>toString\<close> (a value, so not callable) no method gives a primitive and a
  TypeError is raised, otherwise the inherited \<^verbatim>\<open>toString\<close> answers
  \<^verbatim>\<open>[object Object]\<close>. An array is its elements joined by commas, null and undefined
  elements being empty, the others converted in turn; the first conversion that raises
  ends it.
\<close>

fun string_of_nat :: "nat \<Rightarrow> string" where
  "string_of_nat n =
     (if n < 10 then [''0123456789'' ! n]
      else string_of_nat (n div 10) @ [''0123456789'' ! (n mod 10)])"

declare string_of_nat.simps [simp del]

definition string_of_int :: "int \<Rightarrow> string" where
  "string_of_int i = (if i < 0 then CHR ''-'' # string_of_nat (nat (- i)) else string_of_nat (nat i))"

fun join_comma :: "string list \<Rightarrow> string" where
  "join_comma [] = []"
| "join_comma [x] = x"
| "join_comma (x # y # ys) = x @ '','' @ join_comma (y # ys)"

definition no_primitive :: jsval where
  "no_primitive = js_error ''TypeError'' ''Cannot convert object to primitive value''"

text \<open>The results of a sequence of conversions, or the first exception among them.\<close>

fun in_turn :: "(jsval + string) list \<Rightarrow> jsval + string list" where
  "in_turn [] = Inr []"
| "in_turn (Inl ex # rs) = Inl ex"
| "in_turn (Inr x # rs) = (case in_turn rs of Inl ex \<Rightarrow> Inl ex | Inr xs \<Rightarrow> Inr (x # xs))"

fun to_string :: "jsval \<Rightarrow> jsval + string" where
  "to_string Undefined = Inr ''undefined''"
| "to_string Null = Inr ''null''"
| "to_string (JBool b) = Inr (if b then ''true'' else ''false'')"
| "to_string (JNum n) = Inr (string_of_int (sint n))"
| "to_string (JStr s) = Inr s"
| "to_string (JArr xs) =
     (case in_turn (map (\<lambda>x. if x = Undefined \<or> x = Null then Inr [] else to_string x) xs) of
        Inl ex \<Rightarrow> Inl ex
      | Inr ss \<Rightarrow> Inr (join_comma ss))"
| "to_string (JObj kvs) =
     (if map_of kvs ''toString'' \<noteq> None then Inl no_primitive else Inr ''[object Object]'')"

section \<open>The persistence engine and the framework base\<close>

text \<open>
  The connector owns no storage: every operation is a call into the KeystoneJS model
  registry and the query objects it hands out, and into the connector base class of the
  host framework. None of that code is part of \<^verbatim>\<open>src/index.js\<close>, so it is a parameter
  of the model: a record of functions over an engine state \<open>'s\<close>, with \<open>'m\<close> the
  model handles (\<^verbatim>\<open>keystone.lists[name].model\<close>) and \<open>'q\<close> the query handles.

  Asynchronous engine calls report through their callback, once: the model returns the
  callback's arguments together with the engine state after the call. The chainable
  query methods are synchronous and may raise: they return \<open>Inl\<close> of the raised value
  or \<open>Inr\<close> of the next query handle.
\<close>

record ('m, 'q, 's) keystone =
  lists :: "string \<Rightarrow> 'm option"
    \<comment> \<open>\<^verbatim>\<open>keystone.lists[name].model\<close>; \<open>None\<close> when the registry has no such entry\<close>
  direct :: "string \<Rightarrow> 'm option"
    \<comment> \<open>\<^verbatim>\<open>keystone[name].model\<close>, the path \<^verbatim>\<open>save\<close> uses\<close>
  new_save :: "'m \<Rightarrow> jsval \<Rightarrow> 's \<Rightarrow> jsval \<times> 's"
    \<comment> \<open>\<^verbatim>\<open>new M(data)\<close> followed by \<^verbatim>\<open>obj.save(cb)\<close>: the error given to \<^verbatim>\<open>cb\<close>\<close>
  findById :: "'m \<Rightarrow> jsval \<Rightarrow> 's \<Rightarrow> (jsval \<times> jsval) \<times> 's"
    \<comment> \<open>\<^verbatim>\<open>M.findById(id, cb)\<close>: the error and the document given to \<^verbatim>\<open>cb\<close>\<close>
  findById_remove :: "'m \<Rightarrow> jsval \<Rightarrow> 's \<Rightarrow> (jsval \<times> jsval) \<times> 's"
    \<comment> \<open>\<^verbatim>\<open>M.findById(id).remove(cb)\<close>\<close>
  find_query :: "'m \<Rightarrow> 'q"
    \<comment> \<open>\<^verbatim>\<open>M.find()\<close>: the base query handle\<close>
  chain :: "'q \<Rightarrow> jsval \<Rightarrow> jsval list \<Rightarrow> 's \<Rightarrow> (jsval + 'q) \<times> 's"
    \<comment> \<open>\<^verbatim>\<open>query[cmd].apply(query, args)\<close>\<close>
  exec :: "'q \<Rightarrow> 's \<Rightarrow> (jsval \<times> jsval list) \<times> 's"
    \<comment> \<open>\<^verbatim>\<open>query.exec(cb)\<close>: the error and the documents given to \<^verbatim>\<open>cb\<close>\<close>

text \<open>What an operation of the connector comes to.\<close>

datatype outcome =
    Callback jsval jsval
      \<comment> \<open>the completion callback is called with an error and a result (a missing
          argument is \<^verbatim>\<open>undefined\<close>)\<close>
  | Throws jsval
      \<comment> \<open>an exception leaves the operation, synchronously, to its caller\<close>
  | Uncaught jsval
      \<comment> \<open>an exception is raised inside an engine callback; the completion callback is
          never called\<close>

text \<open>The calls an operation makes outside the connector, in order.\<close>

datatype ('m, 'q) event =
    E_new_save 'm jsval
  | E_findById 'm jsval
  | E_findById_remove 'm jsval
  | E_find 'm
  | E_chain 'q jsval "jsval list"
  | E_exec 'q
  | E_updateAttributes string jsval jsval
  | E_setIdValue string jsval jsval

record ('m, 'q, 's) result =
  outcome :: outcome
  events :: "('m, 'q) event list"
  state :: "'s"

text \<open>
  The methods the connector calls on itself without defining them: \<^verbatim>\<open>getIdValue\<close>,
  \<^verbatim>\<open>idName\<close> and \<^verbatim>\<open>setIdValue\<close> come from the framework's connector base;
  \<^verbatim>\<open>updateAttributes\<close> is commented out in the source, so it exists only if something
  else supplies it (\<open>None\<close>: the property is undefined).
\<close>

record 's connector_base =
  getIdValue :: "string \<Rightarrow> jsval \<Rightarrow> jsval"
  idName :: "string \<Rightarrow> string"
  setIdValue :: "string \<Rightarrow> jsval \<Rightarrow> jsval \<Rightarrow> jsval"
    \<comment> \<open>the data object after the assignment\<close>
  updateAttributes :: "(string \<Rightarrow> jsval \<Rightarrow> jsval \<Rightarrow> 's \<Rightarrow> outcome \<times> 's) option"

section \<open>The connector\<close>

text \<open>\<^verbatim>\<open>var filterWhitelist = ['where', 'populate', 'sort', 'limit']\<close>\<close>

definition filterWhitelist :: "string list" where
  "filterWhitelist = [''where'', ''populate'', ''sort'', ''limit'']"

text \<open>
  The settings object of the data source, and the connector the constructor builds from
  it. \<^verbatim>\<open>removeModelPrefix\<close> is a closure the constructor installs when the prefix is
  set; the operations call it under the guard \<^verbatim>\<open>if (this.modelPrefix)\<close>.
\<close>

record ('m, 'q, 's) settings =
  s_keystone :: "('m, 'q, 's) keystone option"
  s_debug :: jsval
  s_modelPrefix :: "string option"

record ('m, 'q, 's) adapter =
  debug :: jsval
  keystone :: "('m, 'q, 's) keystone"
  modelPrefix :: "string option"
  removeModelPrefix :: "string \<Rightarrow> string"
  base :: "'s connector_base"

text \<open>
  \<^verbatim>\<open>debug\<close> is called throughout the file and declared nowhere in it: reaching a call
  raises a ReferenceError.
\<close>

definition debug_undefined :: jsval where
  "debug_undefined = js_error ''ReferenceError'' ''debug is not defined''"

text \<open>
  The constructor compiles the prefix into a regular expression,
  \<^verbatim>\<open>new RegExp('^' + this.modelPrefix)\<close>, and installs the closure
  \<^verbatim>\<open>modelName.replace(modelPrefixRegex, '')\<close>. The regular-expression engine is the
  runtime's, a parameter here: \<open>regexp src\<close> stands for \<^verbatim>\<open>new RegExp(src)\<close>, either the
  SyntaxError it raises or the function \<^verbatim>\<open>name.replace(re, '')\<close> of the compiled
  expression. \<open>ks\<close> is \<^verbatim>\<open>settings.keystone\<close> and \<open>b\<close> the inherited connector base.
\<close>

definition prefix_set :: "string option \<Rightarrow> bool" where
  "prefix_set p = (case p of None \<Rightarrow> False | Some x \<Rightarrow> x \<noteq> [])"

definition KeyStoneJS ::
  "(string \<Rightarrow> jsval + (string \<Rightarrow> string)) \<Rightarrow> 's connector_base \<Rightarrow> ('m, 'q, 's) keystone \<Rightarrow>
   ('m, 'q, 's) settings \<Rightarrow> jsval + ('m, 'q, 's) adapter" where
  "KeyStoneJS regexp b ks st =
     (if truthy (s_debug st) then Inl debug_undefined
      else
        (case s_modelPrefix st of
           None \<Rightarrow>
             Inr \<lparr>debug = s_debug st, keystone = ks, modelPrefix = None,
                  removeModelPrefix = (\<lambda>n. n), base = b\<rparr>
         | Some p \<Rightarrow>
             if p = [] then
               Inr \<lparr>debug = s_debug st, keystone = ks, modelPrefix = Some p,
                    removeModelPrefix = (\<lambda>n. n), base = b\<rparr>
             else
               (case regexp (''^'' @ p) of
                  Inl ex \<Rightarrow> Inl ex
                | Inr f \<Rightarrow>
                    Inr \<lparr>debug = s_debug st, keystone = ks, modelPrefix = Some p,
                         removeModelPrefix = f, base = b\<rparr>)))"

text \<open>
  What the closure computes for a prefix in which every character stands for itself (no
  operator of the regular-expression syntax): the prefix is cut off a name that begins
  with it, once, and any other name is returned as it is.
\<close>

definition regex_operators :: "char list" where
  "regex_operators = CHR 0x5C # ''^$.|?*+()[]{}''"

definition literal_pattern :: "string \<Rightarrow> bool" where
  "literal_pattern p = list_all (\<lambda>c. \<not> List.member regex_operators c) p"

definition replace_prefix :: "string \<Rightarrow> string \<Rightarrow> string" where
  "replace_prefix p modelName =
     (if prefix p modelName then drop (length p) modelName else modelName)"

text \<open>
  \<^verbatim>\<open>exports.initialize\<close>: without a \<^verbatim>\<open>keystone\<close> handle in the settings no connector
  is attached (\<open>Inr None\<close>).
\<close>

definition initialize ::
  "(string \<Rightarrow> jsval + (string \<Rightarrow> string)) \<Rightarrow> 's connector_base \<Rightarrow> ('m, 'q, 's) settings \<Rightarrow>
   jsval + ('m, 'q, 's) adapter option" where
  "initialize regexp b st =
     (case s_keystone st of
        None \<Rightarrow> Inr None
      | Some ks \<Rightarrow>
          (case KeyStoneJS regexp b ks st of Inl ex \<Rightarrow> Inl ex | Inr a \<Rightarrow> Inr (Some a)))"

text \<open>The model name an operation looks up: \<^verbatim>\<open>if (this.modelPrefix) model = this.removeModelPrefix(model)\<close>.\<close>

definition registry_name :: "('m, 'q, 's) adapter \<Rightarrow> string \<Rightarrow> string" where
  "registry_name a model =
     (if prefix_set (modelPrefix a) then removeModelPrefix a model else model)"

text \<open>Reading \<^verbatim>\<open>.model\<close> of a registry entry that does not exist raises a TypeError.\<close>

definition no_such_model :: jsval where
  "no_such_model = js_error ''TypeError'' ''Cannot read property model of undefined''"

definition thrown :: "jsval \<Rightarrow> 's \<Rightarrow> ('m, 'q, 's) result" where
  "thrown ex s = \<lparr>outcome = Throws ex, events = [], state = s\<rparr>"

subsection \<open>fromDatabase\<close>

text \<open>
  \<^verbatim>\<open>if (!data) return null; data = data._doc; return data;\<close>
\<close>

definition fromDatabase :: "string \<Rightarrow> jsval \<Rightarrow> jsval" where
  "fromDatabase model data = (if \<not> truthy data then Null else get_prop data ''_doc'')"

subsection \<open>create, save, exists, find, destroy\<close>

definition create :: "('m, 'q, 's) adapter \<Rightarrow> string \<Rightarrow> jsval \<Rightarrow> 's \<Rightarrow> ('m, 'q, 's) result" where
  "create a model data s =
     (if truthy (debug a) then thrown debug_undefined s
      else
        (case lists (keystone a) (registry_name a model) of
           None \<Rightarrow> thrown no_such_model s
         | Some m \<Rightarrow>
             (case new_save (keystone a) m data s of
                (err, s') \<Rightarrow>
                  \<lparr>outcome = Callback err Undefined, events = [E_new_save m data], state = s'\<rparr>)))"

definition save :: "('m, 'q, 's) adapter \<Rightarrow> string \<Rightarrow> jsval \<Rightarrow> 's \<Rightarrow> ('m, 'q, 's) result" where
  "save a model data s =
     (if truthy (debug a) then thrown debug_undefined s
      else
        (case direct (keystone a) (registry_name a model) of
           None \<Rightarrow> thrown no_such_model s
         | Some m \<Rightarrow>
             (case new_save (keystone a) m data s of
                (err, s') \<Rightarrow>
                  \<lparr>outcome = Callback err Undefined, events = [E_new_save m data], state = s'\<rparr>)))"

definition exists :: "('m, 'q, 's) adapter \<Rightarrow> string \<Rightarrow> jsval \<Rightarrow> 's \<Rightarrow> ('m, 'q, 's) result" where
  "exists a model idv s =
     (if truthy (debug a) then thrown debug_undefined s
      else
        (case lists (keystone a) (registry_name a model) of
           None \<Rightarrow> thrown no_such_model s
         | Some m \<Rightarrow>
             (case findById (keystone a) m idv s of
                ((err, data), s') \<Rightarrow>
                  \<lparr>outcome = Callback err (JBool (\<not> truthy err \<and> truthy data)),
                   events = [E_findById m idv], state = s'\<rparr>)))"

definition find_op :: "('m, 'q, 's) adapter \<Rightarrow> string \<Rightarrow> jsval \<Rightarrow> 's \<Rightarrow> ('m, 'q, 's) result" where
  "find_op a model idv s =
     (if truthy (debug a) then thrown debug_undefined s
      else
        (case lists (keystone a) (registry_name a model) of
           None \<Rightarrow> thrown no_such_model s
         | Some m \<Rightarrow>
             (case findById (keystone a) m idv s of
                ((err, data), s') \<Rightarrow>
                  \<lparr>outcome =
                     (if truthy err then Callback err Undefined
                      else Callback err (fromDatabase (registry_name a model) data)),
                   events = [E_findById m idv], state = s'\<rparr>)))"

definition destroy :: "('m, 'q, 's) adapter \<Rightarrow> string \<Rightarrow> jsval \<Rightarrow> 's \<Rightarrow> ('m, 'q, 's) result" where
  "destroy a model idv s =
     (if truthy (debug a) then thrown debug_undefined s
      else
        (case lists (keystone a) (registry_name a model) of
           None \<Rightarrow> thrown no_such_model s
         | Some m \<Rightarrow>
             (case findById_remove (keystone a) m idv s of
                ((err, res), s') \<Rightarrow>
                  \<lparr>outcome = Callback err res, events = [E_findById_remove m idv], state = s'\<rparr>)))"

subsection \<open>updateOrCreate\<close>

text \<open>
  A call made from inside an engine callback: an exception it raises has no caller of
  the operation left to reach.
\<close>

definition in_callback :: "outcome \<Rightarrow> outcome" where
  "in_callback out = (case out of Throws ex \<Rightarrow> Uncaught ex | _ \<Rightarrow> out)"

definition and_then :: "('m, 'q, 's) result \<Rightarrow> ('m, 'q, 's) result \<Rightarrow> ('m, 'q, 's) result" where
  "and_then r r' =
     \<lparr>outcome = in_callback (outcome r'), events = events r @ events r', state = state r'\<rparr>"

text \<open>\<^verbatim>\<open>self.updateAttributes(model, idValue, data, callback)\<close>\<close>

definition call_updateAttributes ::
  "('m, 'q, 's) adapter \<Rightarrow> string \<Rightarrow> jsval \<Rightarrow> jsval \<Rightarrow> 's \<Rightarrow> ('m, 'q, 's) result" where
  "call_updateAttributes a model idValue data s =
     (case updateAttributes (base a) of
        None \<Rightarrow>
          \<lparr>outcome = Throws (js_error ''TypeError'' ''self.updateAttributes is not a function''),
           events = [E_updateAttributes model idValue data], state = s\<rparr>
      | Some f \<Rightarrow>
          (case f model idValue data s of
             (out, s') \<Rightarrow>
               \<lparr>outcome = out, events = [E_updateAttributes model idValue data], state = s'\<rparr>))"

text \<open>
  The callback \<^verbatim>\<open>function (err, id) {...}\<close> that the not-found branch hands to
  \<^verbatim>\<open>create\<close>, applied to what \<^verbatim>\<open>create\<close> came to: the outcome of the operation,
  the calls made and the caller's data object afterwards.
\<close>

definition on_created ::
  "('m, 'q, 's) adapter \<Rightarrow> string \<Rightarrow> jsval \<Rightarrow> string \<Rightarrow> outcome \<Rightarrow>
   outcome \<times> ('m, 'q) event list \<times> jsval" where
  "on_created a model data idName' out =
     (case out of
        Callback err idv \<Rightarrow>
          if truthy err then (Callback err Undefined, [], data)
          else if truthy idv then
            (let data1 = setIdValue (base a) model data idv;
                 data2 = (if truthy data \<and> idName' \<noteq> ''_id'' then delete_prop data1 ''_id'' else data1)
             in (Callback Null data2, [E_setIdValue model data idv], data2))
          else (Callback Null Null, [], data)
      | Throws ex \<Rightarrow> (Uncaught ex, [], data)
      | Uncaught ex \<Rightarrow> (Uncaught ex, [], data))"

definition updateOrCreate ::
  "('m, 'q, 's) adapter \<Rightarrow> string \<Rightarrow> jsval \<Rightarrow> 's \<Rightarrow> ('m, 'q, 's) result \<times> jsval" where
  "updateOrCreate a model data s =
     (if truthy (debug a) then (thrown debug_undefined s, data)
      else
        (let idValue = getIdValue (base a) model data;
             idName' = idName (base a) model
         in if idValue = Null \<or> idValue = Undefined then (create a model data s, data)
            else
              (let r = find_op a model idValue s
               in (case outcome r of
                     Callback err inst \<Rightarrow>
                       if truthy err then (r\<lparr>outcome := Callback err Undefined\<rparr>, data)
                       else if truthy inst then
                         (and_then r (call_updateAttributes a model idValue data (state r)), data)
                       else
                         (let c = create a model data (state r)
                          in (case on_created a model data idName' (outcome c) of
                                (out, evs, data') \<Rightarrow>
                                  (\<lparr>outcome = out, events = events r @ events c @ evs,
                                    state = state c\<rparr>, data')))
                   | _ \<Rightarrow> (r, data)))))"

subsection \<open>all\<close>

text \<open>\<^verbatim>\<open>subFilter.shift()\<close>: the first element (\<^verbatim>\<open>undefined\<close> of an empty array) and the array afterwards.\<close>

fun shift :: "jsval list \<Rightarrow> jsval \<times> jsval list" where
  "shift [] = (Undefined, [])"
| "shift (x # xs) = (x, xs)"

text \<open>\<^verbatim>\<open>_.contains(filterWhitelist, cmd)\<close> compares with \<^verbatim>\<open>===\<close>: only a string can be found.\<close>

definition contains :: "string list \<Rightarrow> jsval \<Rightarrow> bool" where
  "contains xs v = (case v of JStr c \<Rightarrow> List.member xs c | _ \<Rightarrow> False)"

text \<open>
  A filter is an array of sub-filter arrays, and \<^verbatim>\<open>shift\<close> changes a sub-filter in
  place. So the sub-filters live in a store of arrays, a filter is \<open>None\<close> (\<^verbatim>\<open>null\<close>,
  \<^verbatim>\<open>undefined\<close> or not given) or the list of the references it holds, and one array
  may stand at several positions. The elements of a sub-filter are values.
\<close>

type_synonym ref = nat

type_synonym store = "ref \<Rightarrow> jsval list"

text \<open>
  The \<^verbatim>\<open>_.each\<close> loop over the sub-filters, inside the \<^verbatim>\<open>try\<close>. Its variables are
  \<^verbatim>\<open>err\<close> and \<^verbatim>\<open>query\<close>; the result records how the loop was left (\<open>l_raised\<close>: the
  exception that ended it), the two variables, the store as the loop leaves it, the
  engine calls and the engine state.
\<close>

record ('m, 'q, 's) chaining =
  l_raised :: "jsval option"
  l_err :: jsval
  l_query :: "'q"
  l_store :: store
  l_events :: "('m, 'q) event list"
  l_state :: "'s"

fun each_subFilter ::
  "('m, 'q, 's) keystone \<Rightarrow> ref list \<Rightarrow> jsval \<Rightarrow> 'q \<Rightarrow> store \<Rightarrow> 's \<Rightarrow> ('m, 'q, 's) chaining" where
  "each_subFilter ks [] err q h s =
     \<lparr>l_raised = None, l_err = err, l_query = q, l_store = h, l_events = [], l_state = s\<rparr>"
| "each_subFilter ks (subFilter # rest) err q h s =
     (if truthy err then each_subFilter ks rest err q h s
      else
        (case shift (h subFilter) of
           (cmd, args) \<Rightarrow>
             if \<not> contains filterWhitelist cmd then
               (case to_string cmd of
                  Inl ex \<Rightarrow>
                    \<lparr>l_raised = Some ex, l_err = err, l_query = q,
                     l_store = h(subFilter := args), l_events = [], l_state = s\<rparr>
                | Inr str \<Rightarrow>
                    each_subFilter ks rest (JStr (str @ '' is not a supported filter command''))
                      q (h(subFilter := args)) s)
             else
               (case chain ks q cmd args s of
                  (Inl ex, s') \<Rightarrow>
                    \<lparr>l_raised = Some ex, l_err = err, l_query = q,
                     l_store = h(subFilter := args),
                     l_events = [E_chain q cmd args], l_state = s'\<rparr>
                | (Inr q', s') \<Rightarrow>
                    (let l = each_subFilter ks rest err q' (h(subFilter := args)) s'
                     in l\<lparr>l_events := E_chain q cmd args # l_events l\<rparr>))))"

declare each_subFilter.simps [simp del]

text \<open>\<^verbatim>\<open>query.exec(function(err, data) {...})\<close>\<close>

definition exec_query ::
  "('m, 'q, 's) adapter \<Rightarrow> string \<Rightarrow> 'q \<Rightarrow> 's \<Rightarrow> ('m, 'q, 's) result" where
  "exec_query a model q s =
     (case exec (keystone a) q s of
        ((err, data), s') \<Rightarrow>
          \<lparr>outcome =
             (if truthy err then Callback err Undefined
              else Callback Null (JArr (map (fromDatabase model) data))),
           events = [E_exec q], state = s'\<rparr>)"

text \<open>The operation returns, next to its result, the store as the caller finds it afterwards.\<close>

definition all_op ::
  "('m, 'q, 's) adapter \<Rightarrow> string \<Rightarrow> ref list option \<Rightarrow> store \<Rightarrow> 's \<Rightarrow>
   ('m, 'q, 's) result \<times> store" where
  "all_op a model filterSpec h s =
     (if truthy (debug a) then (thrown debug_undefined s, h)
      else
        (case lists (keystone a) (registry_name a model) of
           None \<Rightarrow> (thrown no_such_model s, h)
         | Some m \<Rightarrow>
             (let q0 = find_query (keystone a) m
              in (case filterSpec of
                    Some (subFilter # rest) \<Rightarrow>
                      (let l = each_subFilter (keystone a) (subFilter # rest) Undefined q0 h s;
                           err = (case l_raised l of Some ex \<Rightarrow> ex | None \<Rightarrow> l_err l)
                       in if truthy err then
                            (\<lparr>outcome = Callback err Undefined, events = E_find m # l_events l,
                              state = l_state l\<rparr>, l_store l)
                          else
                            (let r = exec_query a (registry_name a model) (l_query l) (l_state l)
                             in (r\<lparr>events := E_find m # l_events l @ events r\<rparr>, l_store l)))
                  | _ \<Rightarrow>
                      (let r = exec_query a (registry_name a model) q0 s
                       in (r\<lparr>events := E_find m # events r\<rparr>, h))))))"

section \<open>What the specification says of filter application\<close>

text \<open>
  The specification's account of a filter: an ordered sequence of operations, each a
  command name and its positional arguments, every command taken from the allow-list and
  applied to the query handle in turn, chaining. \<open>apply_in_order\<close> is that account on
  its own terms, for the sub-filters as the caller wrote them: the final query handle,
  the applications made and the engine state, or \<open>None\<close> when a sub-filter has no
  command or an application raises.
\<close>

definition allowed :: "jsval list \<Rightarrow> bool" where
  "allowed subFilter = (case subFilter of [] \<Rightarrow> False | cmd # args \<Rightarrow> contains filterWhitelist cmd)"

fun apply_in_order ::
  "('m, 'q, 's) keystone \<Rightarrow> 'q \<Rightarrow> jsval list list \<Rightarrow> 's \<Rightarrow> ('q \<times> ('m, 'q) event list \<times> 's) option" where
  "apply_in_order ks q [] s = Some (q, [], s)"
| "apply_in_order ks q ([] # rest) s = None"
| "apply_in_order ks q ((cmd # args) # rest) s =
     (case chain ks q cmd args s of
        (Inl ex, s') \<Rightarrow> None
      | (Inr q', s') \<Rightarrow>
          (case apply_in_order ks q' rest s' of
             None \<Rightarrow> None
           | Some (qf, evs, sf) \<Rightarrow> Some (qf, E_chain q cmd args # evs, sf)))"

text \<open>The commands applied, with their arguments, among the calls made.\<close>

fun applications :: "('m, 'q) event list \<Rightarrow> (jsval \<times> jsval list) list" where
  "applications [] = []"
| "applications (E_chain q cmd args # es) = (cmd, args) # applications es"
| "applications (e # es) = applications es"

text \<open>
  How many positions of the filter are processed: one after the other, up to and including
  the first whose command is rejected or whose application raises, each finding its
  array as the positions before it left it.
\<close>

fun processed :: "('m, 'q, 's) keystone \<Rightarrow> 'q \<Rightarrow> ref list \<Rightarrow> store \<Rightarrow> 's \<Rightarrow> nat" where
  "processed ks q [] h s = 0"
| "processed ks q (subFilter # rest) h s =
     (case shift (h subFilter) of
        (cmd, args) \<Rightarrow>
          if \<not> contains filterWhitelist cmd then 1
          else
            (case chain ks q cmd args s of
               (Inl ex, s') \<Rightarrow> 1
             | (Inr q', s') \<Rightarrow> Suc (processed ks q' rest (h(subFilter := args)) s')))"

text \<open>
  The store after the arrays at the given positions have been shifted, an array once for
  each position it stands at: it has lost that many leading elements.
\<close>

definition shifted :: "ref list \<Rightarrow> store \<Rightarrow> store" where
  "shifted refs h = (\<lambda>r. drop (count_list refs r) (h r))"

text \<open>The calls that reach the engine, leaving out those to the connector base.\<close>

definition engine_calls :: "('m, 'q) event list \<Rightarrow> ('m, 'q) event list" where
  "engine_calls evs =
     filter (\<lambda>e. case e of E_updateAttributes m i d \<Rightarrow> False | E_setIdValue m d i \<Rightarrow> False | _ \<Rightarrow> True) evs"

definition is_exec :: "('m, 'q) event \<Rightarrow> bool" where
  "is_exec e = (case e of E_exec q \<Rightarrow> True | _ \<Rightarrow> False)"

definition is_new_save :: "('m, 'q) event \<Rightarrow> bool" where
  "is_new_save e = (case e of E_new_save m d \<Rightarrow> True | _ \<Rightarrow> False)"

definition is_findById :: "('m, 'q) event \<Rightarrow> bool" where
  "is_findById e = (case e of E_findById m i \<Rightarrow> True | _ \<Rightarrow> False)"

definition is_setIdValue :: "('m, 'q) event \<Rightarrow> bool" where
  "is_setIdValue e = (case e of E_setIdValue m d i \<Rightarrow> True | _ \<Rightarrow> False)"

section \<open>A small engine to run the connector on\<close>

text \<open>
  An in-memory engine for the concrete runs below: two models, registered on both paths,
  documents
  wrapped as \<^verbatim>\<open>{_doc: ...}\<close>, a query handle that remembers the commands applied to it
  and honours \<^verbatim>\<open>limit\<close> when executed. As the query builder of the real engine does,
  \<^verbatim>\<open>where\<close> raises when its first argument is neither a path nor an object; \<open>ex\<close> is
  the value it raises.
\<close>

type_synonym mem_query = "string \<times> (jsval \<times> jsval list) list"

type_synonym mem_db = "(string \<times> jsval list) list"

definition stored :: "mem_db \<Rightarrow> string \<Rightarrow> jsval list" where
  "stored db m = (case map_of db m of Some ds \<Rightarrow> ds | None \<Rightarrow> [])"

definition has_id :: "jsval \<Rightarrow> jsval \<Rightarrow> bool" where
  "has_id idv d = (get_prop (get_prop d ''_doc'') ''_id'' = idv)"

definition bad_path :: "jsval list \<Rightarrow> bool" where
  "bad_path args = (case args of [] \<Rightarrow> False | JStr p # _ \<Rightarrow> False | JObj c # _ \<Rightarrow> False | _ \<Rightarrow> True)"

fun limited :: "(jsval \<times> jsval list) list \<Rightarrow> jsval list \<Rightarrow> jsval list" where
  "limited [] ds = ds"
| "limited ((cmd, args) # cs) ds =
     (if cmd = JStr ''limit'' then
        (case args of JNum n # _ \<Rightarrow> limited cs (take (nat (sint n)) ds) | _ \<Rightarrow> limited cs ds)
      else limited cs ds)"

definition mem_models :: "string \<Rightarrow> string option" where
  "mem_models n = (if n = ''Post'' \<or> n = ''AppPost'' then Some n else None)"

definition mem_keystone :: "jsval \<Rightarrow> (string, mem_query, mem_db) keystone" where
  "mem_keystone ex =
     \<lparr>lists = mem_models,
      direct = mem_models,
      new_save = (\<lambda>m data db. (Null, (m, stored db m @ [JObj [(''_doc'', data)]]) # db)),
      findById = (\<lambda>m idv db.
         ((Null, (case List.find (has_id idv) (stored db m) of Some d \<Rightarrow> d | None \<Rightarrow> Null)), db)),
      findById_remove = (\<lambda>m idv db.
         ((Null, Undefined), (m, filter (\<lambda>d. \<not> has_id idv d) (stored db m)) # db)),
      find_query = (\<lambda>m. (m, [])),
      chain = (\<lambda>q cmd args db.
         if cmd = JStr ''where'' \<and> bad_path args then (Inl ex, db)
         else (Inr (fst q, snd q @ [(cmd, args)]), db)),
      exec = (\<lambda>q db. ((Null, limited (snd q) (stored db (fst q))), db))\<rparr>"

definition path_error :: jsval where
  "path_error = js_error ''TypeError'' ''path must be a string or object''"

text \<open>The connector base as the framework has it, with the identifier property \<^verbatim>\<open>_id\<close>.\<close>

definition mem_base :: "mem_db connector_base" where
  "mem_base =
     \<lparr>getIdValue = (\<lambda>model data. if truthy data then get_prop data ''_id'' else data),
      idName = (\<lambda>model. ''_id''),
      setIdValue = (\<lambda>model data v.
         (case data of JObj kvs \<Rightarrow> JObj ((''_id'', v) # filter (\<lambda>kv. fst kv \<noteq> ''_id'') kvs) | _ \<Rightarrow> data)),
      updateAttributes = None\<rparr>"

text \<open>
  A regular-expression engine for the patterns \<^verbatim>\<open>^p\<close> with \<open>p\<close> free of operators, the
  only ones the runs below compile; it takes no other pattern.
\<close>

definition literal_regexp :: "string \<Rightarrow> jsval + (string \<Rightarrow> string)" where
  "literal_regexp src =
     (case src of
        [] \<Rightarrow> Inl (js_error ''SyntaxError'' ''pattern not supported'')
      | c # p \<Rightarrow>
          if c = CHR ''^'' \<and> literal_pattern p then Inr (replace_prefix p)
          else Inl (js_error ''SyntaxError'' ''pattern not supported''))"

definition mem_adapter :: "jsval \<Rightarrow> string option \<Rightarrow> (string, mem_query, mem_db) adapter" where
  "mem_adapter ex p =
     \<lparr>debug = Undefined, keystone = mem_keystone ex, modelPrefix = p,
      removeModelPrefix = (case p of Some x \<Rightarrow> replace_prefix x | None \<Rightarrow> (\<lambda>n. n)),
      base = mem_base\<rparr>"

definition doc :: "safe_int \<Rightarrow> string \<Rightarrow> jsval" where
  "doc i t = JObj [(''_doc'', JObj [(''_id'', JNum i), (''title'', JStr t)])]"

definition mem_db0 :: mem_db where
  "mem_db0 = [(''Post'', [doc 1 ''one'', doc 2 ''two'', doc 3 ''three'']), (''AppPost'', [doc 7 ''seven''])]"

text \<open>
  An \<^verbatim>\<open>updateAttributes\<close> for the connector base, which the source leaves out: it
  replaces the stored document and calls back with the data.
\<close>

definition mem_updateAttributes :: "string \<Rightarrow> jsval \<Rightarrow> jsval \<Rightarrow> mem_db \<Rightarrow> outcome \<times> mem_db" where
  "mem_updateAttributes model idv data db =
     (Callback Null data,
      (model, map (\<lambda>d. if has_id idv d then JObj [(''_doc'', data)] else d) (stored db model)) # db)"

definition mem_adapter_updating :: "(string, mem_query, mem_db) adapter" where
  "mem_adapter_updating =
     (mem_adapter path_error None)
       \<lparr>base := mem_base\<lparr>updateAttributes := Some mem_updateAttributes\<rparr>\<rparr>"

text \<open>The sub-filter arrays of the runs below, by reference.\<close>

definition mem_store :: store where
  "mem_store =
     (\<lambda>r. [])
       (0 := [JStr ''where'', JObj [(''a'', JNum 1)]],
        1 := [JStr ''limit'', JNum 5],
        2 := [JStr ''dropTable'', JNum 1],
        3 := [JStr ''where'', JNum 5],
        4 := [JStr ''sort'', JStr ''title''],
        5 := [JStr ''limit'', JNum 1],
        6 := [JStr ''dropTable''],
        7 := [JObj [(''toString'', JNum 1)]])"

section \<open>Properties\<close>

text \<open>The equations that evaluate a run on the in-memory engine.\<close>

lemmas mem_simps =
  mem_adapter_def mem_keystone_def mem_base_def mem_models_def mem_db0_def doc_def stored_def
  has_id_def bad_path_def registry_name_def prefix_set_def replace_prefix_def
  get_prop_def fromDatabase_def filterWhitelist_def contains_def allowed_def
  path_error_def js_error_def

lemmas run_simps =
  all_op_def each_subFilter.simps exec_query_def Let_def mem_store_def mem_simps

lemma mem_debug_off: "\<not> truthy (debug (mem_adapter ex p))"
  by (simp add: mem_adapter_def)

lemma mem_registered_Post:
  "lists (keystone (mem_adapter ex None)) (registry_name (mem_adapter ex None) ''Post'') = Some ''Post''"
  by (simp add: mem_simps)

lemma mem_apply_where_a1:
  "apply_in_order (keystone (mem_adapter ex None)) (find_query (keystone (mem_adapter ex None)) ''Post'')
     (map mem_store [0]) mem_db0 =
   Some ((''Post'', [(JStr ''where'', [JObj [(''a'', JNum 1)]])]),
         [E_chain (''Post'', []) (JStr ''where'') [JObj [(''a'', JNum 1)]]], mem_db0)"
  by (simp add: mem_store_def mem_adapter_def mem_keystone_def bad_path_def)

subsection \<open>Shifting arrays in the store\<close>

lemma shift_drop: "snd (shift xs) = drop 1 xs"
  by (cases xs) simp_all

lemma shifted_Nil: "shifted [] h = h"
  by (simp add: shifted_def)

lemma shifted_Cons: "shifted (r # refs) h = shifted refs (h(r := snd (shift (h r))))"
  by (auto simp: shifted_def shift_drop fun_eq_iff)

lemma shifted_append: "shifted (xs @ ys) h = shifted ys (shifted xs h)"
  by (induction xs arbitrary: h) (simp_all add: shifted_Nil shifted_Cons)

lemma count_list_distinct:
  "distinct refs \<Longrightarrow> count_list refs r = (if r \<in> set refs then 1 else 0)"
  by (induction refs) auto

lemma shifted_distinct:
  "distinct refs \<Longrightarrow> shifted refs h r = (if r \<in> set refs then snd (shift (h r)) else h r)"
  by (simp add: shifted_def shift_drop count_list_distinct)

subsection \<open>The loop over the sub-filters\<close>

lemma each_subFilter_after_error:
  "truthy err \<Longrightarrow>
   each_subFilter ks refs err q h s =
     \<lparr>l_raised = None, l_err = err, l_query = q, l_store = h, l_events = [], l_state = s\<rparr>"
  by (induction refs) (simp_all add: each_subFilter.simps)

lemma allowed_Cons: "allowed (cmd # args) = contains filterWhitelist cmd"
  by (simp add: allowed_def)

lemma allowed_Nil: "\<not> allowed []"
  by (simp add: allowed_def)

lemma not_allowed_shift:
  "\<not> allowed bad \<Longrightarrow> \<not> contains filterWhitelist (fst (shift bad))"
  by (cases bad) (simp_all add: allowed_def contains_def)

text \<open>
  A run of allow-listed sub-filters, all different arrays, whose applications return: the
  loop makes the applications of \<open>apply_in_order\<close>, shifts each array once and goes on
  with the rest of the filter.
\<close>

lemma each_subFilter_allowed:
  "distinct pre \<Longrightarrow> list_all allowed (map h pre) \<Longrightarrow>
   apply_in_order ks q (map h pre) s = Some (qf, evs, sf) \<Longrightarrow> \<not> truthy err \<Longrightarrow>
   each_subFilter ks (pre @ rest) err q h s =
     (each_subFilter ks rest err qf (shifted pre h) sf)
       \<lparr>l_events := evs @ l_events (each_subFilter ks rest err qf (shifted pre h) sf)\<rparr>"
proof (induction pre arbitrary: q h s evs)
  case Nil
  then show ?case by (simp add: shifted_Nil)
next
  case (Cons p pre)
  from Cons.prems(2) obtain cmd args where sub: "h p = cmd # args"
    by (cases "h p") (auto simp: allowed_Nil)
  from Cons.prems(2) sub have ok: "contains filterWhitelist cmd"
    by (simp add: allowed_Cons)
  from Cons.prems(3) sub obtain q' s' evs' where
    ch: "chain ks q cmd args s = (Inr q', s')" and
    rest: "apply_in_order ks q' (map h pre) s' = Some (qf, evs', sf)" and
    evs: "evs = E_chain q cmd args # evs'"
    by (auto split: prod.splits sum.splits option.splits)
  let ?h = "h(p := args)"
  from Cons.prems(1) have same: "map ?h pre = map h pre"
    by auto
  from Cons.prems(1) have d: "distinct pre"
    by simp
  have a0: "list_all allowed (map h pre)"
    using Cons.prems(2) by simp
  have a: "list_all allowed (map ?h pre)"
    unfolding same by (rule a0)
  have r: "apply_in_order ks q' (map ?h pre) s' = Some (qf, evs', sf)"
    unfolding same by (rule rest)
  have sh: "shifted (p # pre) h = shifted pre ?h"
    by (simp add: shifted_Cons sub)
  from Cons.IH[OF d a r Cons.prems(4)] show ?case
    using sub ok ch evs Cons.prems(4)
    by (simp add: each_subFilter.simps Let_def sh del: fun_upd_apply)
qed

lemma apply_in_order_no_exec:
  "apply_in_order ks q subs s = Some (qf, evs, sf) \<Longrightarrow> \<not> list_ex is_exec evs"
proof (induction ks q subs s arbitrary: evs rule: apply_in_order.induct)
  case (3 ks q cmd args rest s)
  then show ?case
    by (auto simp: is_exec_def split: prod.splits sum.splits option.splits)
qed simp_all

lemma each_subFilter_rejected:
  assumes "\<not> allowed (h r)" "\<not> truthy err" "to_string (fst (shift (h r))) = Inr str"
  shows "each_subFilter ks (r # post) err q h s =
     \<lparr>l_raised = None, l_err = JStr (str @ '' is not a supported filter command''),
      l_query = q, l_store = shifted [r] h, l_events = [], l_state = s\<rparr>"
proof -
  obtain cmd args where sh: "shift (h r) = (cmd, args)"
    by (cases "shift (h r)")
  with not_allowed_shift[OF assms(1)] have "\<not> contains filterWhitelist cmd"
    by simp
  with sh assms(2,3) show ?thesis
    by (simp add: each_subFilter.simps each_subFilter_after_error shifted_Cons shifted_Nil)
qed

lemma each_subFilter_unprintable:
  assumes "\<not> allowed (h r)" "\<not> truthy err" "to_string (fst (shift (h r))) = Inl ex"
  shows "each_subFilter ks (r # post) err q h s =
     \<lparr>l_raised = Some ex, l_err = err, l_query = q, l_store = shifted [r] h,
      l_events = [], l_state = s\<rparr>"
proof -
  obtain cmd args where sh: "shift (h r) = (cmd, args)"
    by (cases "shift (h r)")
  with not_allowed_shift[OF assms(1)] have "\<not> contains filterWhitelist cmd"
    by simp
  with sh assms(2,3) show ?thesis
    by (simp add: each_subFilter.simps shifted_Cons shifted_Nil)
qed

lemma each_subFilter_raised:
  assumes "h r = cmd # args" "contains filterWhitelist cmd"
    "chain ks q cmd args s = (Inl ex, s')" "\<not> truthy err"
  shows "each_subFilter ks (r # post) err q h s =
     \<lparr>l_raised = Some ex, l_err = err, l_query = q, l_store = shifted [r] h,
      l_events = [E_chain q cmd args], l_state = s'\<rparr>"
  using assms by (simp add: each_subFilter.simps shifted_Cons shifted_Nil)


lemma all_op_Some:
  assumes "\<not> truthy (debug a)" "lists (keystone a) (registry_name a model) = Some m"
    "refs \<noteq> []"
  shows "all_op a model (Some refs) h s =
     (let l = each_subFilter (keystone a) refs Undefined (find_query (keystone a) m) h s;
          err = (case l_raised l of Some ex \<Rightarrow> ex | None \<Rightarrow> l_err l)
      in if truthy err then
           (\<lparr>outcome = Callback err Undefined, events = E_find m # l_events l,
             state = l_state l\<rparr>, l_store l)
         else
           (let r = exec_query a (registry_name a model) (l_query l) (l_state l)
            in (r\<lparr>events := E_find m # l_events l @ events r\<rparr>, l_store l)))"
  using assms by (cases refs) (simp_all add: all_op_def Let_def)

subsection \<open>Unsupported commands\<close>

text \<open>
  C1. A filter whose first sub-filter outside the allow-list is reached (the sub-filters
  before it are allow-listed, are different arrays, none of them the rejected one, and
  are applied without raising) and whose leading element has a string form makes
  \<^verbatim>\<open>all\<close> complete with the error string \<^verbatim>\<open><command> is not a supported filter command\<close>,
  the command being that string form (\<^verbatim>\<open>undefined\<close> when the sub-filter is empty). No
  result is delivered and the query is not executed: the calls made are \<^verbatim>\<open>find()\<close> and
  the applications before the rejected command. The sub-filters up to the rejected one
  have been shifted.
\<close>

theorem all_rejects_unsupported_command:
  assumes "\<not> truthy (debug a)"
    and "lists (keystone a) (registry_name a model) = Some m"
    and "distinct (pre @ [r])"
    and "list_all allowed (map h pre)"
    and "apply_in_order (keystone a) (find_query (keystone a) m) (map h pre) s = Some (q, evs, s')"
    and "\<not> allowed (h r)"
    and "to_string (fst (shift (h r))) = Inr str"
  shows "all_op a model (Some (pre @ r # post)) h s =
           (\<lparr>outcome = Callback (JStr (str @ '' is not a supported filter command'')) Undefined,
             events = E_find m # evs, state = s'\<rparr>,
            shifted (pre @ [r]) h)
         \<and> \<not> list_ex is_exec (E_find m # evs)"
proof -
  from assms(3) have d: "distinct pre" and fresh: "r \<notin> set pre"
    by simp_all
  from fresh have same: "shifted pre h r = h r"
    by (simp add: shifted_distinct[OF d])
  have "each_subFilter (keystone a) (pre @ r # post) Undefined (find_query (keystone a) m) h s =
      \<lparr>l_raised = None, l_err = JStr (str @ '' is not a supported filter command''),
       l_query = q, l_store = shifted (pre @ [r]) h, l_events = evs, l_state = s'\<rparr>"
    using each_subFilter_allowed[OF d assms(4,5), of Undefined "r # post"]
      each_subFilter_rejected[of "shifted pre h" r Undefined str "keystone a" post q s']
      assms(6,7) same
    by (simp add: shifted_append)
  then have "all_op a model (Some (pre @ r # post)) h s =
           (\<lparr>outcome = Callback (JStr (str @ '' is not a supported filter command'')) Undefined,
             events = E_find m # evs, state = s'\<rparr>,
            shifted (pre @ [r]) h)"
    by (simp add: all_op_Some[OF assms(1,2)])
  moreover have "\<not> list_ex is_exec (E_find m # evs)"
    using apply_in_order_no_exec[OF assms(5)] by (simp add: is_exec_def)
  ultimately show ?thesis by simp
qed

text \<open>
  C1, on the in-memory engine: \<^verbatim>\<open>where({a: 1})\<close> is applied, \<^verbatim>\<open>dropTable\<close> is rejected
  and \<^verbatim>\<open>limit\<close> is never looked at.
\<close>

theorem all_rejects_unsupported_command_witness:
  "\<not> truthy (debug (mem_adapter path_error None))
   \<and> lists (keystone (mem_adapter path_error None))
        (registry_name (mem_adapter path_error None) ''Post'') = Some ''Post''
   \<and> distinct ([0] @ [2 :: ref])
   \<and> list_all allowed (map mem_store [0])
   \<and> \<not> allowed (mem_store 2)
   \<and> to_string (fst (shift (mem_store 2))) = Inr ''dropTable''
   \<and> fst (all_op (mem_adapter path_error None) ''Post'' (Some [0, 2, 1]) mem_store mem_db0) =
       \<lparr>outcome = Callback (JStr ''dropTable is not a supported filter command'') Undefined,
        events = [E_find ''Post'', E_chain (''Post'', []) (JStr ''where'') [JObj [(''a'', JNum 1)]]],
        state = mem_db0\<rparr>
   \<and> snd (all_op (mem_adapter path_error None) ''Post'' (Some [0, 2, 1]) mem_store mem_db0) 0 =
       [JObj [(''a'', JNum 1)]]
   \<and> snd (all_op (mem_adapter path_error None) ''Post'' (Some [0, 2, 1]) mem_store mem_db0) 2 =
       [JNum 1]
   \<and> snd (all_op (mem_adapter path_error None) ''Post'' (Some [0, 2, 1]) mem_store mem_db0) 1 =
       [JStr ''limit'', JNum 5]"
proof -
  have h3: "distinct ([0] @ [2 :: ref])"
    by simp
  have h4: "list_all allowed (map mem_store [0])"
    by (simp add: mem_store_def mem_simps)
  have h6: "\<not> allowed (mem_store 2)"
    by (simp add: mem_store_def mem_simps)
  have h7: "to_string (fst (shift (mem_store 2))) = Inr ''dropTable''"
    by (simp add: mem_store_def)
  have a0: "shifted ([0] @ [2]) mem_store 0 = [JObj [(''a'', JNum 1)]]"
    and a2: "shifted ([0] @ [2]) mem_store 2 = [JNum 1]"
    and a1: "shifted ([0] @ [2]) mem_store 1 = [JStr ''limit'', JNum 5]"
    by (simp_all add: shifted_def mem_store_def)
  from all_rejects_unsupported_command[OF mem_debug_off mem_registered_Post h3 h4
      mem_apply_where_a1 h6 h7, of path_error "[1]"]
    mem_debug_off[of path_error None] mem_registered_Post[of path_error] h3 h4 h6 h7 a0 a2 a1
  show ?thesis
    by simp
qed

text \<open>
  C1 does not hold of every filter that contains an unsupported command: when an
  allow-listed command before it raises, here \<^verbatim>\<open>where(5)\<close>, the error delivered is
  what was raised and the unsupported command is never reached.
\<close>

theorem all_unsupported_command_counterexample:
  "allowed (mem_store 3)
   \<and> \<not> allowed (mem_store 6)
   \<and> mem_store 6 = [JStr ''dropTable'']
   \<and> outcome (fst (all_op (mem_adapter path_error None) ''Post'' (Some [3, 6]) mem_store mem_db0)) =
       Callback path_error Undefined
   \<and> outcome (fst (all_op (mem_adapter path_error None) ''Post'' (Some [3, 6]) mem_store mem_db0)) \<noteq>
       Callback (JStr ''dropTable is not a supported filter command'') Undefined"
  by (simp add: run_simps)

text \<open>
  Nor when one array stands at two positions before it: the second position finds the
  array shifted and its next element, here \<^verbatim>\<open>title\<close>, is the command rejected. And a
  command without a string form is not named in an error string: the conversion raises,
  and what it raises is delivered.
\<close>

lemma all_shared_before_unsupported:
  "allowed (mem_store 4)
   \<and> \<not> allowed (mem_store 6)
   \<and> outcome (fst (all_op (mem_adapter path_error None) ''Post'' (Some [4, 4, 6]) mem_store mem_db0)) =
       Callback (JStr ''title is not a supported filter command'') Undefined"
  by (simp add: run_simps)

lemma all_unprintable_command:
  "\<not> allowed (mem_store 7)
   \<and> to_string (fst (shift (mem_store 7))) = Inl no_primitive
   \<and> outcome (fst (all_op (mem_adapter path_error None) ''Post'' (Some [7]) mem_store mem_db0)) =
       Callback no_primitive Undefined"
  by (simp add: run_simps no_primitive_def)

subsection \<open>Exceptions raised in the loop\<close>

text \<open>
  The loop is left by an exception in two places only: the application of an allow-listed
  command, the last call made, or the conversion of a rejected command to a string.
\<close>

lemma each_subFilter_raised_by:
  "l_raised (each_subFilter ks refs err q h s) = Some ex \<Longrightarrow>
   (\<exists>q' cmd args s0 s1.
      contains filterWhitelist cmd \<and> chain ks q' cmd args s0 = (Inl ex, s1) \<and>
      l_events (each_subFilter ks refs err q h s) \<noteq> [] \<and>
      last (l_events (each_subFilter ks refs err q h s)) = E_chain q' cmd args)
   \<or> (\<exists>cmd. \<not> contains filterWhitelist cmd \<and> to_string cmd = Inl ex)"
proof (induction ks refs err q h s rule: each_subFilter.induct)
  case (1 ks err q h s)
  then show ?case by (simp add: each_subFilter.simps)
next
  case (2 ks r rest err q h s)
  show ?case
  proof (cases "truthy err")
    case True
    with "2.prems" show ?thesis by (simp add: each_subFilter_after_error)
  next
    case False
    obtain cmd args where sh: "shift (h r) = (cmd, args)"
      by (cases "shift (h r)")
    show ?thesis
    proof (cases "contains filterWhitelist cmd")
      case no: False
      show ?thesis
      proof (cases "to_string cmd")
        case (Inl e)
        with False sh no "2.prems" show ?thesis
          by (auto simp: each_subFilter.simps(2) simp del: fun_upd_apply)
      next
        case (Inr str)
        with False sh no "2.prems" show ?thesis
          by (simp add: each_subFilter.simps(2) each_subFilter_after_error del: fun_upd_apply)
      qed
    next
      case ok: True
      obtain res s' where ch: "chain ks q cmd args s = (res, s')"
        by (cases "chain ks q cmd args s")
      show ?thesis
      proof (cases res)
        case (Inl e)
        with False sh ok ch "2.prems" show ?thesis
          by (auto simp: each_subFilter.simps(2) simp del: fun_upd_apply)
      next
        case (Inr q')
        with False sh ok ch "2.prems"
        have raised: "l_raised (each_subFilter ks rest err q' (h(r := args)) s') = Some ex"
          by (simp add: each_subFilter.simps(2) Let_def del: fun_upd_apply)
        from "2.IH"(3)[OF False sh[symmetric] _ ch[symmetric] Inr raised] ok
        show ?thesis
          using False sh ch Inr
          by (auto simp: each_subFilter.simps(2) Let_def simp del: fun_upd_apply)
      qed
    qed
  qed
qed




text \<open>
  The same from the filter's side: the sub-filters before the one whose application
  raises are allow-listed, different arrays and applied without raising.
\<close>

lemma all_forwards_exception_of_application:
  assumes "\<not> truthy (debug a)"
    and "lists (keystone a) (registry_name a model) = Some m"
    and "distinct (pre @ [r])"
    and "list_all allowed (map h pre)"
    and "apply_in_order (keystone a) (find_query (keystone a) m) (map h pre) s = Some (q, evs, s')"
    and "h r = cmd # args" and "contains filterWhitelist cmd"
    and "chain (keystone a) q cmd args s' = (Inl ex, s'')"
    and "truthy ex"
  shows "all_op a model (Some (pre @ r # post)) h s =
           (\<lparr>outcome = Callback ex Undefined, events = E_find m # evs @ [E_chain q cmd args],
             state = s''\<rparr>,
            shifted (pre @ [r]) h)"
proof -
  from assms(3) have d: "distinct pre" and fresh: "r \<notin> set pre"
    by simp_all
  from fresh assms(6) have same: "shifted pre h r = cmd # args"
    by (simp add: shifted_distinct[OF d])
  have "each_subFilter (keystone a) (pre @ r # post) Undefined (find_query (keystone a) m) h s =
      \<lparr>l_raised = Some ex, l_err = Undefined, l_query = q, l_store = shifted (pre @ [r]) h,
       l_events = evs @ [E_chain q cmd args], l_state = s''\<rparr>"
    using each_subFilter_allowed[OF d assms(4,5), of Undefined "r # post"]
      each_subFilter_raised[where h = "shifted pre h" and r = r and err = Undefined and post = post,
        OF same assms(7,8)]
    by (simp add: shifted_append)
  then show ?thesis
    using assms(9) by (simp add: all_op_Some[OF assms(1,2)])
qed

subsection \<open>Applying the commands in order\<close>

lemma apply_in_order_applications:
  "apply_in_order ks q subs s = Some (qf, evs, sf) \<Longrightarrow>
   applications evs = map shift subs \<and> length evs = length subs"
proof (induction ks q subs s arbitrary: evs rule: apply_in_order.induct)
  case (3 ks q cmd args rest s)
  then show ?case
    by (auto split: prod.splits sum.splits option.splits)
qed simp_all

text \<open>
  C5. Given allow-listed sub-filters that are different arrays and whose applications all
  return, \<^verbatim>\<open>all\<close> makes exactly the calls \<^verbatim>\<open>find()\<close>, then one application per
  sub-filter, in the order of the sequence, each of the sub-filter's command to the query
  handle the previous call returned with the remaining elements as arguments, and only
  then \<^verbatim>\<open>exec\<close>, on the last handle.
\<close>

theorem all_applies_commands_in_order:
  assumes "\<not> truthy (debug a)"
    and "lists (keystone a) (registry_name a model) = Some m"
    and "distinct refs"
    and "list_all allowed (map h refs)"
    and "apply_in_order (keystone a) (find_query (keystone a) m) (map h refs) s = Some (qf, evs, sf)"
  shows "all_op a model (Some refs) h s =
           ((exec_query a (registry_name a model) qf sf)\<lparr>events := E_find m # evs @ [E_exec qf]\<rparr>,
            shifted refs h)
         \<and> applications evs = map shift (map h refs) \<and> length evs = length refs"
proof (cases "refs = []")
  case True
  with assms show ?thesis
    by (simp add: all_op_def exec_query_def shifted_Nil split: prod.splits)
next
  case False
  have "each_subFilter (keystone a) refs Undefined (find_query (keystone a) m) h s =
      \<lparr>l_raised = None, l_err = Undefined, l_query = qf, l_store = shifted refs h,
       l_events = evs, l_state = sf\<rparr>"
    using each_subFilter_allowed[OF assms(3,4,5), of Undefined "[]"]
    by (simp add: each_subFilter.simps)
  then have "all_op a model (Some refs) h s =
           ((exec_query a (registry_name a model) qf sf)\<lparr>events := E_find m # evs @ [E_exec qf]\<rparr>,
            shifted refs h)"
    by (simp add: all_op_Some[OF assms(1,2) False] exec_query_def split: prod.splits)
  with apply_in_order_applications[OF assms(5)] show ?thesis by simp
qed

text \<open>
  C5, on the in-memory engine, for the filter \<^verbatim>\<open>[["where", {a: 1}], ["limit", 5]]\<close>:
  \<^verbatim>\<open>where({a: 1})\<close>, then \<^verbatim>\<open>limit(5)\<close> on the handle it returned, then \<^verbatim>\<open>exec\<close>.
\<close>

theorem all_applies_commands_in_order_witness:
  "\<not> truthy (debug (mem_adapter path_error None))
   \<and> lists (keystone (mem_adapter path_error None))
        (registry_name (mem_adapter path_error None) ''Post'') = Some ''Post''
   \<and> distinct [0, 1 :: ref]
   \<and> map mem_store [0, 1] = [[JStr ''where'', JObj [(''a'', JNum 1)]], [JStr ''limit'', JNum 5]]
   \<and> list_all allowed (map mem_store [0, 1])
   \<and> events (fst (all_op (mem_adapter path_error None) ''Post'' (Some [0, 1]) mem_store mem_db0)) =
       [E_find ''Post'',
        E_chain (''Post'', []) (JStr ''where'') [JObj [(''a'', JNum 1)]],
        E_chain (''Post'', [(JStr ''where'', [JObj [(''a'', JNum 1)]])]) (JStr ''limit'') [JNum 5],
        E_exec (''Post'', [(JStr ''where'', [JObj [(''a'', JNum 1)]]), (JStr ''limit'', [JNum 5])])]
   \<and> snd (all_op (mem_adapter path_error None) ''Post'' (Some [0, 1]) mem_store mem_db0) 0 =
       [JObj [(''a'', JNum 1)]]
   \<and> snd (all_op (mem_adapter path_error None) ''Post'' (Some [0, 1]) mem_store mem_db0) 1 =
       [JNum 5]"
proof -
  let ?a = "mem_adapter path_error None"
  have h3: "distinct [0, 1 :: ref]"
    by simp
  have m: "map mem_store [0, 1] = [[JStr ''where'', JObj [(''a'', JNum 1)]], [JStr ''limit'', JNum 5]]"
    by (simp add: mem_store_def)
  have h4: "list_all allowed (map mem_store [0, 1])"
    by (simp add: mem_store_def mem_simps)
  have h5: "apply_in_order (keystone ?a) (find_query (keystone ?a) ''Post'')
        (map mem_store [0, 1]) mem_db0 =
       Some ((''Post'', [(JStr ''where'', [JObj [(''a'', JNum 1)]]), (JStr ''limit'', [JNum 5])]),
             [E_chain (''Post'', []) (JStr ''where'') [JObj [(''a'', JNum 1)]],
              E_chain (''Post'', [(JStr ''where'', [JObj [(''a'', JNum 1)]])]) (JStr ''limit'') [JNum 5]],
             mem_db0)"
    by (simp add: mem_store_def mem_adapter_def mem_keystone_def bad_path_def)
  have a0: "shifted [0, 1] mem_store 0 = [JObj [(''a'', JNum 1)]]"
    and a1: "shifted [0, 1] mem_store 1 = [JNum 5]"
    by (simp_all add: shifted_def mem_store_def)
  have e: "events (exec_query ?a (registry_name ?a ''Post'')
        (''Post'', [(JStr ''where'', [JObj [(''a'', JNum 1)]]), (JStr ''limit'', [JNum 5])]) mem_db0) =
      [E_exec (''Post'', [(JStr ''where'', [JObj [(''a'', JNum 1)]]), (JStr ''limit'', [JNum 5])])]"
    by (simp add: exec_query_def split: prod.splits)
  from all_applies_commands_in_order[OF mem_debug_off mem_registered_Post h3 h4 h5]
    mem_debug_off[of path_error None] mem_registered_Post[of path_error] h3 m h4 a0 a1
  show ?thesis
    by simp
qed

text \<open>
  C5 does not hold of every sequence of allow-listed sub-filters. With the array
  \<^verbatim>\<open>["limit", 1]\<close> at both positions of the filter, the second position finds it
  shifted: \<^verbatim>\<open>limit(1)\<close> is applied once, then \<^verbatim>\<open>1\<close> is rejected as a command and nothing
  is executed. And with \<^verbatim>\<open>[["where", 5], ["limit", 5]]\<close> the application \<^verbatim>\<open>where(5)\<close>
  raises: \<^verbatim>\<open>limit\<close> is never applied.
\<close>

theorem all_in_order_counterexample:
  "list_all allowed (map mem_store [5, 5])
   \<and> outcome (fst (all_op (mem_adapter path_error None) ''Post'' (Some [5, 5]) mem_store mem_db0)) =
       Callback (JStr ''1 is not a supported filter command'') Undefined
   \<and> events (fst (all_op (mem_adapter path_error None) ''Post'' (Some [5, 5]) mem_store mem_db0)) =
       [E_find ''Post'', E_chain (''Post'', []) (JStr ''limit'') [JNum 1]]
   \<and> list_all allowed (map mem_store [3, 1])
   \<and> distinct [3, 1 :: ref]
   \<and> outcome (fst (all_op (mem_adapter path_error None) ''Post'' (Some [3, 1]) mem_store mem_db0)) =
       Callback path_error Undefined
   \<and> events (fst (all_op (mem_adapter path_error None) ''Post'' (Some [3, 1]) mem_store mem_db0)) =
       [E_find ''Post'', E_chain (''Post'', []) (JStr ''where'') [JNum 5]]"
  by (simp add: run_simps string_of_int_def string_of_nat.simps)

subsection \<open>Without a filter\<close>

text \<open>
  C4. \<^verbatim>\<open>all(model, null)\<close> and \<^verbatim>\<open>all(model, [])\<close> both execute the base query
  \<^verbatim>\<open>find()\<close> as it is and, when it succeeds, deliver every document it returns,
  unwrapped by \<^verbatim>\<open>fromDatabase\<close>.
\<close>

theorem all_without_filter_runs_base_query:
  assumes "\<not> truthy (debug a)"
    and "lists (keystone a) (registry_name a model) = Some m"
    and "exec (keystone a) (find_query (keystone a) m) s = ((err, docs), s')"
  shows "all_op a model None h s =
           (\<lparr>outcome = (if truthy err then Callback err Undefined
                         else Callback Null (JArr (map (fromDatabase (registry_name a model)) docs))),
             events = [E_find m, E_exec (find_query (keystone a) m)], state = s'\<rparr>, h)
         \<and> all_op a model (Some []) h s =
           (\<lparr>outcome = (if truthy err then Callback err Undefined
                         else Callback Null (JArr (map (fromDatabase (registry_name a model)) docs))),
             events = [E_find m, E_exec (find_query (keystone a) m)], state = s'\<rparr>, h)"
  using assms by (simp add: all_op_def exec_query_def)

text \<open>
  C4, on the in-memory engine: the one document of \<^verbatim>\<open>AppPost\<close>, unwrapped, either way.
\<close>

theorem all_without_filter_runs_base_query_witness:
  "\<not> truthy (debug (mem_adapter path_error None))
   \<and> lists (keystone (mem_adapter path_error None)) (registry_name (mem_adapter path_error None) ''AppPost'')
       = Some ''AppPost''
   \<and> all_op (mem_adapter path_error None) ''AppPost'' None mem_store mem_db0 =
       (\<lparr>outcome = Callback Null (JArr [JObj [(''_id'', JNum 7), (''title'', JStr ''seven'')]]),
         events = [E_find ''AppPost'', E_exec (''AppPost'', [])], state = mem_db0\<rparr>, mem_store)
   \<and> all_op (mem_adapter path_error None) ''AppPost'' (Some []) mem_store mem_db0 =
       (\<lparr>outcome = Callback Null (JArr [JObj [(''_id'', JNum 7), (''title'', JStr ''seven'')]]),
         events = [E_find ''AppPost'', E_exec (''AppPost'', [])], state = mem_db0\<rparr>, mem_store)"
proof -
  let ?a = "mem_adapter path_error None"
  have h1: "\<not> truthy (debug ?a)"
    by (simp add: mem_adapter_def)
  have h2: "lists (keystone ?a) (registry_name ?a ''AppPost'') = Some ''AppPost''"
    by (simp add: mem_simps)
  have h3: "exec (keystone ?a) (find_query (keystone ?a) ''AppPost'') mem_db0 =
      ((Null, [doc 7 ''seven'']), mem_db0)"
    by (simp add: mem_simps)
  from all_without_filter_runs_base_query[OF h1 h2 h3, of mem_store] h1 h2 show ?thesis
    by (simp add: mem_simps)
qed

subsection \<open>The filter after the call\<close>

lemma each_subFilter_processed:
  "\<not> truthy err \<Longrightarrow>
   l_store (each_subFilter ks refs err q h s) = shifted (take (processed ks q refs h s) refs) h"
proof (induction refs arbitrary: q h s)
  case Nil
  then show ?case by (simp add: each_subFilter.simps shifted_Nil)
next
  case (Cons r rest)
  obtain cmd args where sh: "shift (h r) = (cmd, args)"
    by (cases "shift (h r)")
  then have args: "snd (shift (h r)) = args"
    by simp
  show ?case
  proof (cases "contains filterWhitelist cmd")
    case False
    with sh Cons.prems show ?thesis
      by (cases "to_string cmd")
         (simp_all add: each_subFilter.simps(2) each_subFilter_after_error shifted_Cons shifted_Nil
            del: fun_upd_apply)
  next
    case True
    obtain res s' where ch: "chain ks q cmd args s = (res, s')"
      by (cases "chain ks q cmd args s")
    show ?thesis
    proof (cases res)
      case (Inl ex)
      with True sh ch Cons.prems show ?thesis
        by (simp add: each_subFilter.simps(2) shifted_Cons shifted_Nil del: fun_upd_apply)
    next
      case (Inr q')
      with True sh ch Cons.prems Cons.IH[OF Cons.prems, of q' "h(r := args)" s'] show ?thesis
        by (simp add: each_subFilter.simps(2) Let_def shifted_Cons del: fun_upd_apply)
    qed
  qed
qed

lemma processed_rejected:
  "distinct (pre @ [r]) \<Longrightarrow> list_all allowed (map h pre) \<Longrightarrow>
   apply_in_order ks q (map h pre) s = Some (qf, evs, sf) \<Longrightarrow> \<not> allowed (h r) \<Longrightarrow>
   processed ks q (pre @ r # post) h s = Suc (length pre)"
proof (induction pre arbitrary: q h s evs)
  case Nil
  obtain cmd args where sh: "shift (h r) = (cmd, args)"
    by (cases "shift (h r)")
  with not_allowed_shift[OF Nil.prems(4)] show ?case
    by simp
next
  case (Cons p pre)
  from Cons.prems(2) obtain cmd args where sub: "h p = cmd # args"
    by (cases "h p") (auto simp: allowed_Nil)
  from Cons.prems(2) sub have ok: "contains filterWhitelist cmd"
    by (simp add: allowed_Cons)
  from Cons.prems(3) sub obtain q' s' evs' where
    ch: "chain ks q cmd args s = (Inr q', s')" and
    rest: "apply_in_order ks q' (map h pre) s' = Some (qf, evs', sf)"
    by (auto split: prod.splits sum.splits option.splits)
  let ?h = "h(p := args)"
  from Cons.prems(1) have same: "map ?h pre = map h pre" and r: "?h r = h r"
    by auto
  from Cons.prems(1) have d: "distinct (pre @ [r])"
    by simp
  have a0: "list_all allowed (map h pre)"
    using Cons.prems(2) by simp
  have a: "list_all allowed (map ?h pre)"
    unfolding same by (rule a0)
  have ap: "apply_in_order ks q' (map ?h pre) s' = Some (qf, evs', sf)"
    unfolding same by (rule rest)
  have bad: "\<not> allowed (?h r)"
    unfolding r by (rule Cons.prems(4))
  from Cons.IH[OF d a ap bad] show ?case
    using sub ok ch by (simp del: fun_upd_apply)
qed

text \<open>
  C10. \<^verbatim>\<open>all\<close> changes the caller's filter: every position it processes has had the
  leading element of its array removed, in place, the position whose command is rejected
  among them, so that afterwards an array has lost one leading element for each processed
  position it stands at, and the other arrays are as they were. The array at the first
  position, when it has a leading element, is therefore not the same after the call.
\<close>

theorem all_shifts_processed_subFilters:
  assumes "\<not> truthy (debug a)"
    and "lists (keystone a) (registry_name a model) = Some m"
  shows "snd (all_op a model (Some refs) h s) =
           shifted (take (processed (keystone a) (find_query (keystone a) m) refs h s) refs) h
         \<and> (refs \<noteq> [] \<longrightarrow> 0 < processed (keystone a) (find_query (keystone a) m) refs h s)
         \<and> (refs \<noteq> [] \<and> h (hd refs) \<noteq> [] \<longrightarrow>
              snd (all_op a model (Some refs) h s) (hd refs) \<noteq> h (hd refs))
         \<and> (refs = pre @ r # post \<and> distinct (pre @ [r]) \<and> list_all allowed (map h pre) \<and>
              \<not> allowed (h r) \<and>
              apply_in_order (keystone a) (find_query (keystone a) m) (map h pre) s = Some (q, evs, s')
              \<longrightarrow> processed (keystone a) (find_query (keystone a) m) refs h s = Suc (length pre))"
proof -
  let ?n = "processed (keystone a) (find_query (keystone a) m) refs h s"
  have pos: "0 < ?n" if "refs \<noteq> []"
    using that by (cases refs) (simp_all split: prod.splits sum.splits)
  have after: "snd (all_op a model (Some refs) h s) = shifted (take ?n refs) h"
  proof (cases "refs = []")
    case True
    with assms show ?thesis by (simp add: all_op_def Let_def shifted_Nil)
  next
    case False
    show ?thesis
      using each_subFilter_processed[of Undefined "keystone a" refs "find_query (keystone a) m" h s]
      by (simp add: all_op_Some[OF assms False] Let_def)
  qed
  have changed: "snd (all_op a model (Some refs) h s) (hd refs) \<noteq> h (hd refs)"
    if "refs \<noteq> []" "h (hd refs) \<noteq> []"
  proof -
    from that(1) obtain r0 rest where refs: "refs = r0 # rest"
      by (cases refs) auto
    from pos[OF that(1)] obtain k where k: "?n = Suc k"
      by (cases ?n) auto
    have "length (shifted (take (Suc k) (r0 # rest)) h r0) < length (h r0)"
      using that(2) refs by (simp add: shifted_def)
    then show ?thesis
      using after k refs by auto
  qed
  from after pos changed show ?thesis
    by (auto simp: processed_rejected)
qed

text \<open>
  C10, on the in-memory engine: \<^verbatim>\<open>limit\<close> and the rejected \<^verbatim>\<open>dropTable\<close> have lost
  their command, \<^verbatim>\<open>sort\<close> is as it was; and an array that stands at two processed
  positions has lost two elements.
\<close>

theorem all_shifts_processed_subFilters_witness:
  "\<not> truthy (debug (mem_adapter path_error None))
   \<and> lists (keystone (mem_adapter path_error None))
        (registry_name (mem_adapter path_error None) ''Post'') = Some ''Post''
   \<and> mem_store 5 = [JStr ''limit'', JNum 1]
   \<and> mem_store 2 = [JStr ''dropTable'', JNum 1]
   \<and> mem_store 4 = [JStr ''sort'', JStr ''title'']
   \<and> processed (keystone (mem_adapter path_error None))
        (find_query (keystone (mem_adapter path_error None)) ''Post'') [5, 2, 4] mem_store mem_db0 = 2
   \<and> snd (all_op (mem_adapter path_error None) ''Post'' (Some [5, 2, 4]) mem_store mem_db0) 5 = [JNum 1]
   \<and> snd (all_op (mem_adapter path_error None) ''Post'' (Some [5, 2, 4]) mem_store mem_db0) 2 = [JNum 1]
   \<and> snd (all_op (mem_adapter path_error None) ''Post'' (Some [5, 2, 4]) mem_store mem_db0) 4 =
       [JStr ''sort'', JStr ''title'']
   \<and> processed (keystone (mem_adapter path_error None))
        (find_query (keystone (mem_adapter path_error None)) ''Post'') [5, 5] mem_store mem_db0 = 2
   \<and> snd (all_op (mem_adapter path_error None) ''Post'' (Some [5, 5]) mem_store mem_db0) 5 = []"
proof -
  let ?a = "mem_adapter path_error None"
  have m: "mem_store 5 = [JStr ''limit'', JNum 1]" "mem_store 2 = [JStr ''dropTable'', JNum 1]"
    "mem_store 4 = [JStr ''sort'', JStr ''title'']"
    by (simp_all add: mem_store_def)
  have p1: "processed (keystone ?a) (find_query (keystone ?a) ''Post'') [5, 2, 4] mem_store mem_db0 = 2"
    by (simp add: mem_store_def mem_adapter_def mem_keystone_def bad_path_def
          filterWhitelist_def contains_def)
  have p2: "processed (keystone ?a) (find_query (keystone ?a) ''Post'') [5, 5] mem_store mem_db0 = 2"
    by (simp add: mem_store_def mem_adapter_def mem_keystone_def bad_path_def
          filterWhitelist_def contains_def)
  from all_shifts_processed_subFilters[OF mem_debug_off[of path_error None]
      mem_registered_Post[of path_error], where refs = "[5, 2, 4]" and h = mem_store and s = mem_db0]
    all_shifts_processed_subFilters[OF mem_debug_off[of path_error None]
      mem_registered_Post[of path_error], where refs = "[5, 5]" and h = mem_store and s = mem_db0]
    mem_debug_off[of path_error None] mem_registered_Post[of path_error] m p1 p2
  show ?thesis
    by (simp add: shifted_def)
qed

subsection \<open>updateOrCreate\<close>

lemma find_op_events:
  "events (find_op a model idv s) = [] \<or>
   (\<exists>m. events (find_op a model idv s) = [E_findById m idv])"
  by (auto simp: find_op_def thrown_def split: option.splits prod.splits)

text \<open>
  C6. When the identifier extracted from the data is \<^verbatim>\<open>null\<close> or \<^verbatim>\<open>undefined\<close>,
  \<^verbatim>\<open>updateOrCreate\<close> is \<^verbatim>\<open>create\<close> on the same arguments, and no \<^verbatim>\<open>findById\<close>
  is among the calls made.
\<close>

theorem updateOrCreate_without_id_creates:
  assumes "getIdValue (base a) model data = Null \<or> getIdValue (base a) model data = Undefined"
  shows "updateOrCreate a model data s = (create a model data s, data)
         \<and> \<not> list_ex is_findById (events (create a model data s))"
proof -
  have "updateOrCreate a model data s = (create a model data s, data)"
    using assms by (auto simp: updateOrCreate_def create_def Let_def)
  moreover have "\<not> list_ex is_findById (events (create a model data s))"
    by (auto simp: create_def thrown_def is_findById_def split: option.splits prod.splits)
  ultimately show ?thesis by simp
qed

text \<open>
  C6, on the in-memory engine, for data without an \<^verbatim>\<open>_id\<close>.
\<close>

theorem updateOrCreate_without_id_creates_witness:
  "getIdValue (base (mem_adapter path_error None)) ''Post'' (JObj [(''title'', JStr ''new'')]) = Undefined
   \<and> updateOrCreate (mem_adapter path_error None) ''Post'' (JObj [(''title'', JStr ''new'')]) mem_db0 =
       (create (mem_adapter path_error None) ''Post'' (JObj [(''title'', JStr ''new'')]) mem_db0,
        JObj [(''title'', JStr ''new'')])
   \<and> outcome (create (mem_adapter path_error None) ''Post'' (JObj [(''title'', JStr ''new'')]) mem_db0)
       = Callback Null Undefined
   \<and> events (create (mem_adapter path_error None) ''Post'' (JObj [(''title'', JStr ''new'')]) mem_db0)
       = [E_new_save ''Post'' (JObj [(''title'', JStr ''new'')])]"
proof -
  let ?a = "mem_adapter path_error None"
  have h: "getIdValue (base ?a) ''Post'' (JObj [(''title'', JStr ''new'')]) = Undefined"
    by (simp add: mem_simps)
  then have h': "getIdValue (base ?a) ''Post'' (JObj [(''title'', JStr ''new'')]) = Null
      \<or> getIdValue (base ?a) ''Post'' (JObj [(''title'', JStr ''new'')]) = Undefined"
    by simp
  from updateOrCreate_without_id_creates[OF h', of mem_db0] h show ?thesis
    by (simp add: create_def mem_simps)
qed

text \<open>
  C3. When the data bears an identifier and \<^verbatim>\<open>find\<close> calls back without error and with
  a record, \<^verbatim>\<open>updateOrCreate\<close> goes on with the call
  \<^verbatim>\<open>updateAttributes(model, idValue, data, callback)\<close> and nothing else: the supplied
  \<^verbatim>\<open>updateAttributes\<close> is applied to these arguments in the state \<^verbatim>\<open>find\<close> left, and
  what it comes to, outcome and state, is what \<^verbatim>\<open>updateOrCreate\<close> comes to (an exception
  it throws is uncaught, inside the callback of \<^verbatim>\<open>find\<close>). Where nothing supplies
  \<^verbatim>\<open>updateAttributes\<close>, as in the source itself, the call raises a TypeError there. In
  neither case is a record constructed and saved.
\<close>

theorem updateOrCreate_existing_updates:
  assumes "getIdValue (base a) model data = idValue"
    and "idValue \<noteq> Null" and "idValue \<noteq> Undefined"
    and "outcome (find_op a model idValue s) = Callback err inst"
    and "\<not> truthy err" and "truthy inst"
  shows "(updateAttributes (base a) = Some f \<and>
            f model idValue data (state (find_op a model idValue s)) = (out, s2) \<longrightarrow>
          updateOrCreate a model data s =
            (\<lparr>outcome = (case out of Throws ex \<Rightarrow> Uncaught ex | _ \<Rightarrow> out),
              events = events (find_op a model idValue s) @ [E_updateAttributes model idValue data],
              state = s2\<rparr>, data))
       \<and> (updateAttributes (base a) = None \<longrightarrow>
          updateOrCreate a model data s =
            (\<lparr>outcome = Uncaught (js_error ''TypeError'' ''self.updateAttributes is not a function''),
              events = events (find_op a model idValue s) @ [E_updateAttributes model idValue data],
              state = state (find_op a model idValue s)\<rparr>, data))
       \<and> \<not> list_ex is_new_save (events (fst (updateOrCreate a model data s)))"
proof -
  have dbg: "\<not> truthy (debug a)"
    using assms(4) by (auto simp: find_op_def thrown_def)
  have main: "updateOrCreate a model data s =
           (and_then (find_op a model idValue s)
              (call_updateAttributes a model idValue data (state (find_op a model idValue s))),
            data)"
    using assms dbg by (simp add: updateOrCreate_def Let_def)
  have evs: "events (call_updateAttributes a model idValue data s1) =
      [E_updateAttributes model idValue data]" for s1
    by (simp add: call_updateAttributes_def split: option.splits prod.splits)
  have supplied: "updateOrCreate a model data s =
            (\<lparr>outcome = (case out of Throws ex \<Rightarrow> Uncaught ex | _ \<Rightarrow> out),
              events = events (find_op a model idValue s) @ [E_updateAttributes model idValue data],
              state = s2\<rparr>, data)"
    if "updateAttributes (base a) = Some f"
      "f model idValue data (state (find_op a model idValue s)) = (out, s2)"
    using main that by (simp add: and_then_def call_updateAttributes_def in_callback_def)
  have missing: "updateOrCreate a model data s =
            (\<lparr>outcome = Uncaught (js_error ''TypeError'' ''self.updateAttributes is not a function''),
              events = events (find_op a model idValue s) @ [E_updateAttributes model idValue data],
              state = state (find_op a model idValue s)\<rparr>, data)"
    if "updateAttributes (base a) = None"
    using main that by (simp add: and_then_def call_updateAttributes_def in_callback_def)
  have "\<not> list_ex is_new_save (events (fst (updateOrCreate a model data s)))"
    using main evs find_op_events[of a model idValue s]
    by (auto simp: and_then_def is_new_save_def)
  with supplied missing show ?thesis
    by blast
qed

text \<open>
  C3, on the in-memory engine, for the stored document 2: with an \<^verbatim>\<open>updateAttributes\<close>
  supplied the document is replaced and the data called back; with none, a TypeError.
\<close>

theorem updateOrCreate_existing_updates_witness:
  "getIdValue (base mem_adapter_updating) ''Post''
      (JObj [(''_id'', JNum 2), (''title'', JStr ''new'')]) = JNum 2
   \<and> outcome (find_op mem_adapter_updating ''Post'' (JNum 2) mem_db0) =
       Callback Null (JObj [(''_id'', JNum 2), (''title'', JStr ''two'')])
   \<and> updateAttributes (base mem_adapter_updating) = Some mem_updateAttributes
   \<and> fst (mem_updateAttributes ''Post'' (JNum 2)
        (JObj [(''_id'', JNum 2), (''title'', JStr ''new'')]) mem_db0) =
       Callback Null (JObj [(''_id'', JNum 2), (''title'', JStr ''new'')])
   \<and> outcome (fst (updateOrCreate mem_adapter_updating ''Post''
        (JObj [(''_id'', JNum 2), (''title'', JStr ''new'')]) mem_db0)) =
       Callback Null (JObj [(''_id'', JNum 2), (''title'', JStr ''new'')])
   \<and> events (fst (updateOrCreate mem_adapter_updating ''Post''
        (JObj [(''_id'', JNum 2), (''title'', JStr ''new'')]) mem_db0)) =
       [E_findById ''Post'' (JNum 2),
        E_updateAttributes ''Post'' (JNum 2) (JObj [(''_id'', JNum 2), (''title'', JStr ''new'')])]
   \<and> stored (state (fst (updateOrCreate mem_adapter_updating ''Post''
        (JObj [(''_id'', JNum 2), (''title'', JStr ''new'')]) mem_db0))) ''Post'' =
       [doc 1 ''one'', JObj [(''_doc'', JObj [(''_id'', JNum 2), (''title'', JStr ''new'')])],
        doc 3 ''three'']
   \<and> updateAttributes (base (mem_adapter path_error None)) = None
   \<and> outcome (fst (updateOrCreate (mem_adapter path_error None) ''Post''
        (JObj [(''_id'', JNum 2), (''title'', JStr ''new'')]) mem_db0)) =
       Uncaught (js_error ''TypeError'' ''self.updateAttributes is not a function'')"
proof -
  let ?a = "mem_adapter_updating"
  let ?b = "mem_adapter path_error None"
  let ?d = "JObj [(''_id'', JNum 2), (''title'', JStr ''new'')]"
  have h1: "getIdValue (base ?a) ''Post'' ?d = JNum 2"
    by (simp add: mem_adapter_updating_def mem_simps)
  have h4: "outcome (find_op ?a ''Post'' (JNum 2) mem_db0) =
       Callback Null (JObj [(''_id'', JNum 2), (''title'', JStr ''two'')])"
    by (simp add: find_op_def mem_adapter_updating_def mem_simps)
  have st: "state (find_op ?a ''Post'' (JNum 2) mem_db0) = mem_db0"
    by (simp add: find_op_def mem_adapter_updating_def mem_simps)
  have ev: "events (find_op ?a ''Post'' (JNum 2) mem_db0) = [E_findById ''Post'' (JNum 2)]"
    by (simp add: find_op_def mem_adapter_updating_def mem_simps)
  have up: "updateAttributes (base ?a) = Some mem_updateAttributes"
    by (simp add: mem_adapter_updating_def)
  obtain s2 where f: "mem_updateAttributes ''Post'' (JNum 2) ?d mem_db0 = (Callback Null ?d, s2)"
    and s2: "stored s2 ''Post'' = [doc 1 ''one'', JObj [(''_doc'', ?d)], doc 3 ''three'']"
    by (simp add: mem_updateAttributes_def mem_simps)
  have g1: "getIdValue (base ?b) ''Post'' ?d = JNum 2"
    by (simp add: mem_simps)
  have g4: "outcome (find_op ?b ''Post'' (JNum 2) mem_db0) =
       Callback Null (JObj [(''_id'', JNum 2), (''title'', JStr ''two'')])"
    by (simp add: find_op_def mem_simps)
  have none: "updateAttributes (base ?b) = None"
    by (simp add: mem_adapter_def mem_base_def)
  from updateOrCreate_existing_updates[OF h1 _ _ h4,
      where f = mem_updateAttributes and out = "Callback Null ?d" and ?s2.0 = s2]
    updateOrCreate_existing_updates[OF g1 _ _ g4]
    h1 h4 st ev up f s2 none
  show ?thesis
    by simp
qed

text \<open>
  \<^verbatim>\<open>create\<close> calls back with one argument, \<^verbatim>\<open>callback(err)\<close>: whatever it is called
  with, the second parameter of its callback is \<^verbatim>\<open>undefined\<close>. The callback that
  \<^verbatim>\<open>updateOrCreate\<close> hands to it would write a truthy identifier back.
\<close>

lemma create_yields_no_identifier:
  "outcome (create a model data s) = Callback e i \<Longrightarrow> i = Undefined"
  by (auto simp: create_def thrown_def split: if_splits option.splits prod.splits)

lemma on_created_with_identifier:
  "truthy idv \<Longrightarrow>
   fst (snd (on_created a model data nm (Callback Null idv))) = [E_setIdValue model data idv]"
  by (simp add: on_created_def Let_def)

text \<open>
  C9. In the not-found branch the delegated \<^verbatim>\<open>create\<close> calls back with its error alone,
  never with an identifier. So when it succeeds \<^verbatim>\<open>updateOrCreate\<close> completes with
  \<^verbatim>\<open>(null, null)\<close>, when it fails with the error, and in neither case is the
  identifier written back: \<^verbatim>\<open>setIdValue\<close> is not called and the data is unchanged.
\<close>

theorem updateOrCreate_not_found_completes_null:
  assumes "\<not> truthy (debug a)"
    and "lists (keystone a) (registry_name a model) = Some m"
    and "getIdValue (base a) model data = idValue"
    and "idValue \<noteq> Null" and "idValue \<noteq> Undefined"
    and "findById (keystone a) m idValue s = ((err, d), s1)"
    and "\<not> truthy err" and "\<not> truthy (fromDatabase (registry_name a model) d)"
    and "new_save (keystone a) m data s1 = (e, s2)"
  shows "updateOrCreate a model data s =
           (\<lparr>outcome = (if truthy e then Callback e Undefined else Callback Null Null),
             events = [E_findById m idValue, E_new_save m data], state = s2\<rparr>, data)
         \<and> outcome (create a model data s1) = Callback e Undefined
         \<and> \<not> list_ex is_setIdValue (events (fst (updateOrCreate a model data s)))"
proof -
  have f: "find_op a model idValue s =
      \<lparr>outcome = Callback err (fromDatabase (registry_name a model) d),
       events = [E_findById m idValue], state = s1\<rparr>"
    using assms by (simp add: find_op_def)
  have c: "create a model data s1 =
      \<lparr>outcome = Callback e Undefined, events = [E_new_save m data], state = s2\<rparr>"
    using assms by (simp add: create_def)
  have "updateOrCreate a model data s =
           (\<lparr>outcome = (if truthy e then Callback e Undefined else Callback Null Null),
             events = [E_findById m idValue, E_new_save m data], state = s2\<rparr>, data)"
    using assms(1,3,4,5,7,8) by (simp add: updateOrCreate_def Let_def f c on_created_def)
  then show ?thesis
    by (simp add: c is_setIdValue_def)
qed

text \<open>
  C9, on the in-memory engine, for an identifier that no stored document has.
\<close>

theorem updateOrCreate_not_found_completes_null_witness:
  "\<not> truthy (debug (mem_adapter path_error None))
   \<and> lists (keystone (mem_adapter path_error None))
        (registry_name (mem_adapter path_error None) ''Post'') = Some ''Post''
   \<and> getIdValue (base (mem_adapter path_error None)) ''Post''
        (JObj [(''_id'', JNum 9), (''title'', JStr ''new'')]) = JNum 9
   \<and> findById (keystone (mem_adapter path_error None)) ''Post'' (JNum 9) mem_db0 =
        ((Null, Null), mem_db0)
   \<and> fst (new_save (keystone (mem_adapter path_error None)) ''Post''
        (JObj [(''_id'', JNum 9), (''title'', JStr ''new'')]) mem_db0) = Null
   \<and> outcome (fst (updateOrCreate (mem_adapter path_error None) ''Post''
        (JObj [(''_id'', JNum 9), (''title'', JStr ''new'')]) mem_db0)) = Callback Null Null
   \<and> events (fst (updateOrCreate (mem_adapter path_error None) ''Post''
        (JObj [(''_id'', JNum 9), (''title'', JStr ''new'')]) mem_db0)) =
       [E_findById ''Post'' (JNum 9),
        E_new_save ''Post'' (JObj [(''_id'', JNum 9), (''title'', JStr ''new'')])]
   \<and> snd (updateOrCreate (mem_adapter path_error None) ''Post''
        (JObj [(''_id'', JNum 9), (''title'', JStr ''new'')]) mem_db0) =
       JObj [(''_id'', JNum 9), (''title'', JStr ''new'')]"
proof -
  let ?a = "mem_adapter path_error None"
  let ?d = "JObj [(''_id'', JNum 9), (''title'', JStr ''new'')]"
  obtain s2 where h9: "new_save (keystone ?a) ''Post'' ?d mem_db0 = (Null, s2)"
    by (simp add: mem_adapter_def mem_keystone_def)
  have h3: "getIdValue (base ?a) ''Post'' ?d = JNum 9"
    by (simp add: mem_simps)
  have h6: "findById (keystone ?a) ''Post'' (JNum 9) mem_db0 = ((Null, Null), mem_db0)"
    by (simp add: mem_simps)
  have h8: "\<not> truthy (fromDatabase (registry_name ?a ''Post'') Null)"
    by (simp add: fromDatabase_def)
  from updateOrCreate_not_found_completes_null[OF mem_debug_off mem_registered_Post h3 _ _ h6 _ h8 h9]
    mem_debug_off[of path_error None] mem_registered_Post[of path_error] h3 h6 h9
  show ?thesis
    by simp
qed

subsection \<open>exists\<close>

text \<open>
  C7. \<^verbatim>\<open>exists\<close> calls back with the error of the lookup and with \<^verbatim>\<open>true\<close> exactly
  when the lookup reported no error and a truthy document, with \<^verbatim>\<open>false\<close> otherwise.
\<close>

theorem exists_true_iff_found:
  assumes "\<not> truthy (debug a)"
    and "lists (keystone a) (registry_name a model) = Some m"
    and "findById (keystone a) m idv s = ((err, d), s')"
  shows "exists a model idv s =
           \<lparr>outcome = Callback err (JBool (\<not> truthy err \<and> truthy d)),
            events = [E_findById m idv], state = s'\<rparr>
         \<and> (outcome (exists a model idv s) = Callback err (JBool True)) = (\<not> truthy err \<and> truthy d)
         \<and> (outcome (exists a model idv s) = Callback err (JBool False)) = (truthy err \<or> \<not> truthy d)"
  using assms by (auto simp: exists_def)

text \<open>
  C7, on the in-memory engine: document 2 exists, document 9 does not.
\<close>

theorem exists_true_iff_found_witness:
  "\<not> truthy (debug (mem_adapter path_error None))
   \<and> lists (keystone (mem_adapter path_error None))
        (registry_name (mem_adapter path_error None) ''Post'') = Some ''Post''
   \<and> findById (keystone (mem_adapter path_error None)) ''Post'' (JNum 2) mem_db0 =
        ((Null, doc 2 ''two''), mem_db0)
   \<and> findById (keystone (mem_adapter path_error None)) ''Post'' (JNum 9) mem_db0 =
        ((Null, Null), mem_db0)
   \<and> outcome (exists (mem_adapter path_error None) ''Post'' (JNum 2) mem_db0) =
        Callback Null (JBool True)
   \<and> outcome (exists (mem_adapter path_error None) ''Post'' (JNum 9) mem_db0) =
        Callback Null (JBool False)"
proof -
  let ?a = "mem_adapter path_error None"
  have f2: "findById (keystone ?a) ''Post'' (JNum 2) mem_db0 = ((Null, doc 2 ''two''), mem_db0)"
    by (simp add: mem_simps)
  have f9: "findById (keystone ?a) ''Post'' (JNum 9) mem_db0 = ((Null, Null), mem_db0)"
    by (simp add: mem_simps)
  from exists_true_iff_found[OF mem_debug_off mem_registered_Post f2]
    exists_true_iff_found[OF mem_debug_off mem_registered_Post f9]
    mem_debug_off[of path_error None] mem_registered_Post[of path_error] f2 f9
  show ?thesis
    by (simp add: doc_def)
qed

subsection \<open>The model prefix\<close>

lemma registry_name_prefixed:
  assumes "modelPrefix a = Some P" "P \<noteq> []" "removeModelPrefix a = replace_prefix P"
  shows "registry_name a (P @ X) = X"
  using assms by (simp add: registry_name_def prefix_set_def replace_prefix_def)

lemma registry_name_unprefixed:
  assumes "modelPrefix a = Some P" "removeModelPrefix a = replace_prefix P" "\<not> prefix P X"
  shows "registry_name a X = X"
  using assms by (simp add: registry_name_def prefix_set_def replace_prefix_def)

lemma call_updateAttributes_agree:
  assumes "map_option (\<lambda>f. f n1) (updateAttributes (base a)) =
           map_option (\<lambda>f. f n2) (updateAttributes (base a))"
  shows "outcome (call_updateAttributes a n1 i d s) = outcome (call_updateAttributes a n2 i d s)
       \<and> state (call_updateAttributes a n1 i d s) = state (call_updateAttributes a n2 i d s)
       \<and> engine_calls (events (call_updateAttributes a n1 i d s)) = []
       \<and> engine_calls (events (call_updateAttributes a n2 i d s)) = []"
  using assms
  by (cases "updateAttributes (base a)")
     (auto simp: call_updateAttributes_def engine_calls_def split: prod.splits)

lemma updateOrCreate_agree:
  assumes n: "registry_name a n1 = registry_name a n2"
    and g: "getIdValue (base a) n1 = getIdValue (base a) n2"
    and i: "idName (base a) n1 = idName (base a) n2"
    and t: "setIdValue (base a) n1 = setIdValue (base a) n2"
    and u: "map_option (\<lambda>f. f n1) (updateAttributes (base a)) =
            map_option (\<lambda>f. f n2) (updateAttributes (base a))"
  shows "outcome (fst (updateOrCreate a n1 data s)) = outcome (fst (updateOrCreate a n2 data s))
       \<and> state (fst (updateOrCreate a n1 data s)) = state (fst (updateOrCreate a n2 data s))
       \<and> snd (updateOrCreate a n1 data s) = snd (updateOrCreate a n2 data s)
       \<and> engine_calls (events (fst (updateOrCreate a n1 data s))) =
           engine_calls (events (fst (updateOrCreate a n2 data s)))"
proof -
  have f: "find_op a n1 = find_op a n2"
    unfolding find_op_def n ..
  have c: "create a n1 = create a n2"
    unfolding create_def n ..
  have o: "fst (on_created a n1 d nm out) = fst (on_created a n2 d nm out)
         \<and> snd (snd (on_created a n1 d nm out)) = snd (snd (on_created a n2 d nm out))
         \<and> engine_calls (fst (snd (on_created a n1 d nm out))) = []
         \<and> engine_calls (fst (snd (on_created a n2 d nm out))) = []" for d nm out
    by (cases out) (simp_all add: on_created_def t Let_def engine_calls_def)
  show ?thesis
  proof (cases "truthy (debug a)")
    case True
    then show ?thesis by (simp add: updateOrCreate_def)
  next
    case False
    let ?v = "getIdValue (base a) n2 data"
    show ?thesis
    proof (cases "?v = Null \<or> ?v = Undefined")
      case True
      with False show ?thesis by (auto simp: updateOrCreate_def g c)
    next
      case nn: False
      let ?r = "find_op a n2 ?v s"
      show ?thesis
      proof (cases "outcome ?r")
        case (Callback err inst)
        show ?thesis
        proof (cases "truthy err")
          case True
          with False nn Callback show ?thesis
            by (simp add: updateOrCreate_def g i f Let_def)
        next
          case ok: False
          show ?thesis
          proof (cases "truthy inst")
            case True
            with False nn Callback ok
              call_updateAttributes_agree[OF u, of "?v" data "state ?r"]
            show ?thesis
              by (simp add: updateOrCreate_def g i f Let_def and_then_def engine_calls_def)
          next
            case nf: False
            let ?c = "create a n2 data (state ?r)"
            from o[of data "idName (base a) n2" "outcome ?c"]
            show ?thesis
              using False nn Callback ok nf
              by (auto simp: updateOrCreate_def g i f c Let_def engine_calls_def
                    split: prod.splits)
          qed
        qed
      next
        case (Throws ex)
        with False nn show ?thesis by (simp add: updateOrCreate_def g i f Let_def)
      next
        case (Uncaught ex)
        with False nn show ?thesis by (simp add: updateOrCreate_def g i f Let_def)
      qed
    qed
  qed
qed

text \<open>
  C2. With a configured prefix \<open>P\<close> that the compiled pattern matches literally and a
  name \<open>X\<close> that does not itself begin with \<open>P\<close>, the operations \<^verbatim>\<open>create\<close>,
  \<^verbatim>\<open>save\<close>, \<^verbatim>\<open>exists\<close>, \<^verbatim>\<open>find\<close>, \<^verbatim>\<open>destroy\<close> and \<^verbatim>\<open>all\<close> called with
  \<open>P @ X\<close> are the same as called with \<open>X\<close>. \<^verbatim>\<open>updateOrCreate\<close> hands the name
  as given to \<^verbatim>\<open>getIdValue\<close>, \<^verbatim>\<open>idName\<close>, \<^verbatim>\<open>setIdValue\<close> and
  \<^verbatim>\<open>updateAttributes\<close>; when these treat the two names alike, it comes to the same
  outcome, engine state, data and engine calls for both.
\<close>

theorem prefixed_name_behaves_as_stripped:
  assumes "modelPrefix a = Some P" and "P \<noteq> []"
    and "removeModelPrefix a = replace_prefix P"
    and "\<not> prefix P X"
  shows "create a (P @ X) data s = create a X data s
       \<and> save a (P @ X) data s = save a X data s
       \<and> exists a (P @ X) idv s = exists a X idv s
       \<and> find_op a (P @ X) idv s = find_op a X idv s
       \<and> destroy a (P @ X) idv s = destroy a X idv s
       \<and> all_op a (P @ X) filterSpec h s = all_op a X filterSpec h s
       \<and> (getIdValue (base a) (P @ X) = getIdValue (base a) X \<and>
           idName (base a) (P @ X) = idName (base a) X \<and>
           setIdValue (base a) (P @ X) = setIdValue (base a) X \<and>
           map_option (\<lambda>f. f (P @ X)) (updateAttributes (base a)) =
             map_option (\<lambda>f. f X) (updateAttributes (base a))
           \<longrightarrow>
           outcome (fst (updateOrCreate a (P @ X) data s)) = outcome (fst (updateOrCreate a X data s)) \<and>
           state (fst (updateOrCreate a (P @ X) data s)) = state (fst (updateOrCreate a X data s)) \<and>
           snd (updateOrCreate a (P @ X) data s) = snd (updateOrCreate a X data s) \<and>
           engine_calls (events (fst (updateOrCreate a (P @ X) data s))) =
             engine_calls (events (fst (updateOrCreate a X data s))))"
proof -
  have n: "registry_name a (P @ X) = registry_name a X"
    using registry_name_prefixed[OF assms(1,2,3)] registry_name_unprefixed[OF assms(1,3,4)]
    by simp
  have "create a (P @ X) data s = create a X data s"
    unfolding create_def n ..
  moreover have "save a (P @ X) data s = save a X data s"
    unfolding save_def n ..
  moreover have "exists a (P @ X) idv s = exists a X idv s"
    unfolding exists_def n ..
  moreover have "find_op a (P @ X) idv s = find_op a X idv s"
    unfolding find_op_def n ..
  moreover have "destroy a (P @ X) idv s = destroy a X idv s"
    unfolding destroy_def n ..
  moreover have "all_op a (P @ X) filterSpec h s = all_op a X filterSpec h s"
    unfolding all_op_def n ..
  ultimately show ?thesis
    using updateOrCreate_agree[OF n] by blast
qed

text \<open>
  C2, on the in-memory engine with the prefix \<^verbatim>\<open>App\<close>: \<^verbatim>\<open>AppPost\<close> and \<^verbatim>\<open>Post\<close>
  are the same model.
\<close>

theorem prefixed_name_behaves_as_stripped_witness:
  "modelPrefix (mem_adapter path_error (Some ''App'')) = Some ''App''
   \<and> ''App'' \<noteq> []
   \<and> removeModelPrefix (mem_adapter path_error (Some ''App'')) = replace_prefix ''App''
   \<and> \<not> prefix ''App'' ''Post''
   \<and> exists (mem_adapter path_error (Some ''App'')) ''AppPost'' (JNum 2) mem_db0 =
       exists (mem_adapter path_error (Some ''App'')) ''Post'' (JNum 2) mem_db0
   \<and> outcome (exists (mem_adapter path_error (Some ''App'')) ''AppPost'' (JNum 2) mem_db0) =
       Callback Null (JBool True)
   \<and> all_op (mem_adapter path_error (Some ''App'')) ''AppPost'' (Some [5]) mem_store mem_db0 =
       all_op (mem_adapter path_error (Some ''App'')) ''Post'' (Some [5]) mem_store mem_db0
   \<and> outcome (fst (updateOrCreate (mem_adapter path_error (Some ''App'')) ''AppPost''
         (JObj [(''title'', JStr ''new'')]) mem_db0)) =
       outcome (fst (updateOrCreate (mem_adapter path_error (Some ''App'')) ''Post''
         (JObj [(''title'', JStr ''new'')]) mem_db0))"
proof -
  let ?a = "mem_adapter path_error (Some ''App'')"
  have h1: "modelPrefix ?a = Some ''App''"
    by (simp add: mem_adapter_def)
  have h2: "''App'' \<noteq> []"
    by simp
  have h3: "removeModelPrefix ?a = replace_prefix ''App''"
    by (simp add: mem_adapter_def)
  have h4: "\<not> prefix ''App'' ''Post''"
    by simp
  have b: "getIdValue (base ?a) (''App'' @ ''Post'') = getIdValue (base ?a) ''Post''
      \<and> idName (base ?a) (''App'' @ ''Post'') = idName (base ?a) ''Post''
      \<and> setIdValue (base ?a) (''App'' @ ''Post'') = setIdValue (base ?a) ''Post''
      \<and> map_option (\<lambda>f. f (''App'' @ ''Post'')) (updateAttributes (base ?a)) =
          map_option (\<lambda>f. f ''Post'') (updateAttributes (base ?a))"
    by (simp add: mem_adapter_def mem_base_def)
  have t: "outcome (exists ?a ''Post'' (JNum 2) mem_db0) = Callback Null (JBool True)"
    by (simp add: exists_def mem_simps)
  from prefixed_name_behaves_as_stripped[OF h1 h2 h3 h4,
      where idv = "JNum 2" and s = mem_db0 and filterSpec = "Some [5]" and h = mem_store
        and data = "JObj [(''title'', JStr ''new'')]"]
    h1 h3 h4 b t
  show ?thesis
    by simp
qed

text \<open>
  C2 does not hold when the rest of the name begins with the prefix again: the name
  \<^verbatim>\<open>AppAppPost\<close> is looked up as \<^verbatim>\<open>AppPost\<close>, and \<^verbatim>\<open>AppPost\<close> itself as
  \<^verbatim>\<open>Post\<close>, which holds other documents.
\<close>

theorem prefixed_name_counterexample:
  "modelPrefix (mem_adapter path_error (Some ''App'')) = Some ''App''
   \<and> removeModelPrefix (mem_adapter path_error (Some ''App'')) = replace_prefix ''App''
   \<and> outcome (exists (mem_adapter path_error (Some ''App'')) (''App'' @ ''AppPost'') (JNum 7) mem_db0)
       = Callback Null (JBool True)
   \<and> outcome (exists (mem_adapter path_error (Some ''App'')) ''AppPost'' (JNum 7) mem_db0)
       = Callback Null (JBool False)"
  by (simp add: exists_def mem_simps)

text \<open>
  Nor does it hold of \<^verbatim>\<open>updateOrCreate\<close> with a connector base that knows the model
  under its prefixed name only: the identifier is found for \<^verbatim>\<open>AppPost\<close> and missed
  for \<^verbatim>\<open>Post\<close>.
\<close>

lemma updateOrCreate_passes_name_to_base:
  "outcome (fst (updateOrCreate
      ((mem_adapter path_error (Some ''App''))
         \<lparr>base := mem_base\<lparr>getIdValue :=
             (\<lambda>model data. if model = ''AppPost'' then get_prop data ''_id'' else Undefined)\<rparr>\<rparr>)
      (''App'' @ ''Post'') (JObj [(''_id'', JNum 2)]) mem_db0)) =
     Uncaught (js_error ''TypeError'' ''self.updateAttributes is not a function'')
   \<and> outcome (fst (updateOrCreate
      ((mem_adapter path_error (Some ''App''))
         \<lparr>base := mem_base\<lparr>getIdValue :=
             (\<lambda>model data. if model = ''AppPost'' then get_prop data ''_id'' else Undefined)\<rparr>\<rparr>)
      ''Post'' (JObj [(''_id'', JNum 2)]) mem_db0)) =
     Callback Null Undefined"
  by (simp add: updateOrCreate_def find_op_def create_def and_then_def call_updateAttributes_def
        in_callback_def Let_def mem_simps)

subsection \<open>The constructor\<close>

text \<open>
  The hypotheses on the connector in the theorems above are what the constructor
  establishes: a connector it returns has a falsy \<^verbatim>\<open>debug\<close>, and for a prefix the
  runtime matches literally its closure is \<open>replace_prefix\<close>.
\<close>

lemma KeyStoneJS_debug_off:
  "KeyStoneJS regexp b ks st = Inr a \<Longrightarrow> \<not> truthy (debug a)"
  by (auto simp: KeyStoneJS_def split: if_splits sum.splits option.splits)

lemma KeyStoneJS_literal_prefix:
  assumes "KeyStoneJS regexp b ks st = Inr a" "s_modelPrefix st = Some P"
    "regexp (''^'' @ P) = Inr (replace_prefix P)"
  shows "modelPrefix a = Some P \<and> (P \<noteq> [] \<longrightarrow> removeModelPrefix a = replace_prefix P)"
  using assms by (auto simp: KeyStoneJS_def split: if_splits sum.splits)

lemma literal_regexp_literal:
  "literal_pattern P \<Longrightarrow> literal_regexp (''^'' @ P) = Inr (replace_prefix P)"
  by (simp add: literal_regexp_def)

lemma initialize_without_keystone:
  "s_keystone st = None \<Longrightarrow> initialize regexp b st = Inr None"
  by (simp add: initialize_def)

text \<open>
  The in-memory connector is what the constructor builds, and a truthy \<^verbatim>\<open>debug\<close>
  setting builds none.
\<close>

lemma literal_pattern_App: "literal_pattern ''App''"
  by (simp add: literal_pattern_def regex_operators_def)

lemma KeyStoneJS_mem_adapter:
  "KeyStoneJS literal_regexp mem_base (mem_keystone ex)
     \<lparr>s_keystone = Some (mem_keystone ex), s_debug = Undefined, s_modelPrefix = Some ''App''\<rparr> =
   Inr (mem_adapter ex (Some ''App''))
   \<and> KeyStoneJS literal_regexp mem_base (mem_keystone ex)
     \<lparr>s_keystone = Some (mem_keystone ex), s_debug = Undefined, s_modelPrefix = None\<rparr> =
   Inr (mem_adapter ex None)"
  using literal_regexp_literal[OF literal_pattern_App]
  by (simp add: KeyStoneJS_def mem_adapter_def)

lemma KeyStoneJS_debug_on:
  "truthy (s_debug st) \<Longrightarrow> KeyStoneJS regexp b ks st = Inl debug_undefined"
  by (simp add: KeyStoneJS_def)

end
